theory Spec2Isabelle
  imports Main "HOL-Library.Word"
begin

unbundle bit_operations_syntax

section \<open>Ad Lib Gold adapter common object: register bus and shadow cache\<close>

text \<open>
  The development follows \<^verbatim>\<open>adapter.cpp\<close> (class \<^verbatim>\<open>CAdapterCommon\<close>) and the
  constants of \<^verbatim>\<open>common.h\<close>.  A \<^verbatim>\<open>BYTE\<close>/\<^verbatim>\<open>UCHAR\<close> is an 8-bit word, an
  \<^verbatim>\<open>NTSTATUS\<close> a 32-bit word.  I/O ports are given by their offset from
  \<^verbatim>\<open>m_pPortBase\<close>.
\<close>

type_synonym BYTE = "8 word"
type_synonym UCHAR = "8 word"
type_synonym DWORD = "32 word"
type_synonym NTSTATUS = "32 word"

subsection \<open>Constants of common.h\<close>

definition ALG_REG_FM0_ADDR :: nat where [simp]: "ALG_REG_FM0_ADDR = 0x00"
definition ALG_REG_FM0_DATA :: nat where [simp]: "ALG_REG_FM0_DATA = 0x01"
definition ALG_REG_FM1_ADDR :: nat where [simp]: "ALG_REG_FM1_ADDR = 0x02"
definition ALG_REG_FM1_DATA :: nat where [simp]: "ALG_REG_FM1_DATA = 0x03"
definition ALG_REG_MMA0_ADDR :: nat where [simp]: "ALG_REG_MMA0_ADDR = 0x04"
definition ALG_REG_MMA0_DATA :: nat where [simp]: "ALG_REG_MMA0_DATA = 0x05"

definition ALG_BANK_CONTROL :: UCHAR where [simp]: "ALG_BANK_CONTROL = 0xFF"
definition ALG_BANK_OPL3 :: UCHAR where [simp]: "ALG_BANK_OPL3 = 0xFE"

definition ALG_STATUS_BUSY_MASK :: UCHAR where [simp]: "ALG_STATUS_BUSY_MASK = 0xC0"
definition ALG_STATUS_SMP_IRQ :: UCHAR where [simp]: "ALG_STATUS_SMP_IRQ = 0x02"
definition ALG_STATUS_FM_IRQ :: UCHAR where [simp]: "ALG_STATUS_FM_IRQ = 0x01"
definition ALG_STATUS_IRQ_MASK :: UCHAR where [simp]: "ALG_STATUS_IRQ_MASK = 0x0F"

definition MMA_STATUS_RRQ :: UCHAR where [simp]: "MMA_STATUS_RRQ = 0x04"

definition CTRL_REG_CONTROL_ID :: BYTE where [simp]: "CTRL_REG_CONTROL_ID = 0x00"
definition CTRL_REG_MASTER_VOL_L :: BYTE where [simp]: "CTRL_REG_MASTER_VOL_L = 0x04"
definition CTRL_REG_MASTER_VOL_R :: BYTE where [simp]: "CTRL_REG_MASTER_VOL_R = 0x05"
definition CTRL_REG_BASS :: BYTE where [simp]: "CTRL_REG_BASS = 0x06"
definition CTRL_REG_TREBLE :: BYTE where [simp]: "CTRL_REG_TREBLE = 0x07"
definition CTRL_REG_OUTPUT_MODE :: BYTE where [simp]: "CTRL_REG_OUTPUT_MODE = 0x08"
definition CTRL_REG_FM_VOL_L :: BYTE where [simp]: "CTRL_REG_FM_VOL_L = 0x09"
definition CTRL_REG_FM_VOL_R :: BYTE where [simp]: "CTRL_REG_FM_VOL_R = 0x0A"
definition CTRL_REG_SAMP_VOL_L :: BYTE where [simp]: "CTRL_REG_SAMP_VOL_L = 0x0B"
definition CTRL_REG_SAMP_VOL_R :: BYTE where [simp]: "CTRL_REG_SAMP_VOL_R = 0x0C"
definition CTRL_REG_AUX_VOL_L :: BYTE where [simp]: "CTRL_REG_AUX_VOL_L = 0x0D"
definition CTRL_REG_AUX_VOL_R :: BYTE where [simp]: "CTRL_REG_AUX_VOL_R = 0x0E"
definition CTRL_REG_MIC_VOL :: BYTE where [simp]: "CTRL_REG_MIC_VOL = 0x0F"
definition CTRL_REG_RESERVED :: BYTE where [simp]: "CTRL_REG_RESERVED = 0x12"

text \<open>\<^verbatim>\<open>CTRL_REG_MAX\<close> is both the size of \<^verbatim>\<open>m_ControlRegs\<close> and the bound that a
  \<^verbatim>\<open>BYTE\<close> index (promoted to \<^verbatim>\<open>int\<close>) is compared with.\<close>

definition CTRL_REG_MAX :: nat where [simp]: "CTRL_REG_MAX = 0x19"
definition CTRL_MIXER_FIRST :: nat where [simp]: "CTRL_MIXER_FIRST = 0x04"
definition CTRL_MIXER_LAST :: nat where [simp]: "CTRL_MIXER_LAST = 0x0F"

definition CTRL_ID_SAVE :: BYTE where [simp]: "CTRL_ID_SAVE = 0x02"
definition CTRL_ID_RESTORE :: BYTE where [simp]: "CTRL_ID_RESTORE = 0x01"
definition CTRL_ID_MODEL_MASK :: BYTE where [simp]: "CTRL_ID_MODEL_MASK = 0x0F"
definition ALG_MODEL_GOLD1000 :: BYTE where [simp]: "ALG_MODEL_GOLD1000 = 0x00"
definition ALG_MODEL_GOLD2000 :: BYTE where [simp]: "ALG_MODEL_GOLD2000 = 0x01"
definition ALG_MODEL_GOLD2000MC :: BYTE where [simp]: "ALG_MODEL_GOLD2000MC = 0x02"

subsection \<open>Platform declarations used by the driver\<close>

text \<open>
  The status codes, the \<^verbatim>\<open>NT_SUCCESS\<close> macro and the \<^verbatim>\<open>DEVICE_POWER_STATE\<close>
  enumeration come from the Windows DDK headers, with the values those headers
  give them.  \<^verbatim>\<open>NT_SUCCESS(s)\<close> is \<^verbatim>\<open>((NTSTATUS)(s)) >= 0\<close> on a signed 32-bit value.
\<close>

definition STATUS_SUCCESS :: NTSTATUS where "STATUS_SUCCESS = 0x00000000"
definition STATUS_UNSUCCESSFUL :: NTSTATUS where "STATUS_UNSUCCESSFUL = 0xC0000001"
definition STATUS_INSUFFICIENT_RESOURCES :: NTSTATUS where "STATUS_INSUFFICIENT_RESOURCES = 0xC000009A"
definition STATUS_DEVICE_DOES_NOT_EXIST :: NTSTATUS where "STATUS_DEVICE_DOES_NOT_EXIST = 0xC00000C0"
definition STATUS_DEVICE_POWERED_OFF :: NTSTATUS where "STATUS_DEVICE_POWERED_OFF = 0xC000028A"

definition NT_SUCCESS :: "NTSTATUS \<Rightarrow> bool" where
  "NT_SUCCESS s = (0 \<le> sint s)"

datatype DEVICE_POWER_STATE =
    PowerDeviceUnspecified
  | PowerDeviceD0
  | PowerDeviceD1
  | PowerDeviceD2
  | PowerDeviceD3
  | PowerDeviceMaximum

text \<open>The integer value of each enumerator; the code compares power states with
  \<^verbatim>\<open><=\<close> and \<^verbatim>\<open>>\<close>.\<close>

fun power_value :: "DEVICE_POWER_STATE \<Rightarrow> nat" where
  "power_value PowerDeviceUnspecified = 0"
| "power_value PowerDeviceD0 = 1"
| "power_value PowerDeviceD1 = 2"
| "power_value PowerDeviceD2 = 3"
| "power_value PowerDeviceD3 = 4"
| "power_value PowerDeviceMaximum = 5"

subsection \<open>The machine outside the adapter object\<close>

text \<open>
  Everything the driver does to the outside world is recorded, in order, in
  \<open>io_trace\<close>: port writes, port reads with the value the hardware returned, stalls,
  and calls of the registered miniports' service routines.  What a port read
  returns is decided by the hardware: \<open>port_input m n p\<close> is the byte the
  \<open>n\<close>-th read of the run returns when it is made on port offset \<open>p\<close>.
\<close>

datatype event =
    PortWrite nat UCHAR
  | PortRead nat UCHAR
  | Stall nat
  | WaveISR nat
  | MidiISR nat

record machine =
  port_input :: "nat \<Rightarrow> nat \<Rightarrow> UCHAR"
  reads_done :: nat
  io_trace :: "event list"

definition WRITE_PORT_UCHAR :: "nat \<Rightarrow> UCHAR \<Rightarrow> machine \<Rightarrow> machine" where
  "WRITE_PORT_UCHAR p v m = m\<lparr>io_trace := io_trace m @ [PortWrite p v]\<rparr>"

definition READ_PORT_UCHAR :: "nat \<Rightarrow> machine \<Rightarrow> UCHAR \<times> machine" where
  "READ_PORT_UCHAR p m =
     (let v = port_input m (reads_done m) p
      in (v, m\<lparr>reads_done := Suc (reads_done m), io_trace := io_trace m @ [PortRead p v]\<rparr>))"

definition KeStallExecutionProcessor :: "nat \<Rightarrow> machine \<Rightarrow> machine" where
  "KeStallExecutionProcessor us m = m\<lparr>io_trace := io_trace m @ [Stall us]\<rparr>"

text \<open>The miniports' service routines are outside the adapter object; a call is
  recorded as one event, with the handle of the miniport that was called.  What
  a service routine does itself (the wave miniport notifies its port, the MIDI
  miniport drains the FIFO through \<^verbatim>\<open>ReadMMA\<close>, that is through base+5) is part
  of that event.\<close>

definition ServiceWaveISR :: "nat \<Rightarrow> machine \<Rightarrow> machine" where
  "ServiceWaveISR h m = m\<lparr>io_trace := io_trace m @ [WaveISR h]\<rparr>"

definition ServiceMidiISR :: "nat \<Rightarrow> machine \<Rightarrow> machine" where
  "ServiceMidiISR h m = m\<lparr>io_trace := io_trace m @ [MidiISR h]\<rparr>"

subsection \<open>The adapter object\<close>

text \<open>The fields of \<^verbatim>\<open>CAdapterCommon\<close>; a miniport pointer is \<open>None\<close> when it is
  \<^verbatim>\<open>NULL\<close>, and \<open>m_pInterruptSync\<close> says whether that pointer is set.\<close>

record adapter =
  m_pInterruptSync :: bool
  m_PowerState :: DEVICE_POWER_STATE
  m_ControlRegs :: "BYTE list"
  m_CardModel :: BYTE
  m_CardOptions :: BYTE
  m_pWaveMiniport :: "nat option"
  m_pMidiMiniport :: "nat option"

subsection \<open>WaitForReady\<close>

text \<open>
  \<^verbatim>\<open>do { status = READ_PORT_UCHAR(base+2); } while ((status & BUSY_MASK) && --timeout);\<close>
  The counter is decremented only when the busy bits are set, and the loop is left
  when it reaches 0; it starts at 1000, so the \<^verbatim>\<open>ULONG\<close> never wraps.  The loop
  returns the final value of the counter.
\<close>

fun WaitForReady_loop :: "nat \<Rightarrow> machine \<Rightarrow> nat \<times> machine" where
  "WaitForReady_loop timeout m =
     (case READ_PORT_UCHAR ALG_REG_FM1_ADDR m of
        (status, m') \<Rightarrow>
          if status AND ALG_STATUS_BUSY_MASK \<noteq> 0 then
            (if timeout - 1 \<noteq> 0 then WaitForReady_loop (timeout - 1) m'
             else (timeout - 1, m'))
          else (timeout, m'))"

declare WaitForReady_loop.simps [simp del]

definition WaitForReady :: "machine \<Rightarrow> bool \<times> machine" where
  "WaitForReady m = (case WaitForReady_loop 1000 m of (timeout, m') \<Rightarrow> (timeout > 0, m'))"

subsection \<open>ControlRegWrite and ControlRegRead\<close>

definition ControlRegWrite :: "BYTE \<Rightarrow> BYTE \<Rightarrow> adapter \<Rightarrow> machine \<Rightarrow> adapter \<times> machine" where
  "ControlRegWrite Register Value a m =
     (let m' =
        (if power_value (m_PowerState a) \<le> power_value PowerDeviceD1 then
           (let m1 = WRITE_PORT_UCHAR ALG_REG_FM1_ADDR ALG_BANK_CONTROL m;
                m2 = snd (WaitForReady m1);
                m3 = WRITE_PORT_UCHAR ALG_REG_FM1_ADDR Register m2;
                m4 = WRITE_PORT_UCHAR ALG_REG_FM1_DATA Value m3;
                m5 = (if 0x04 \<le> unat Register \<and> unat Register \<le> 0x08 then snd (WaitForReady m4)
                      else if 0x09 \<le> unat Register \<and> unat Register \<le> 0x16
                           then KeStallExecutionProcessor 5 m4
                      else m4)
            in WRITE_PORT_UCHAR ALG_REG_FM1_ADDR ALG_BANK_OPL3 m5)
         else m)
      in (if unat Register < CTRL_REG_MAX
          then a\<lparr>m_ControlRegs := (m_ControlRegs a)[unat Register := Value]\<rparr>
          else a,
          m'))"

definition ControlRegRead :: "BYTE \<Rightarrow> adapter \<Rightarrow> BYTE" where
  "ControlRegRead Register a =
     (if unat Register < CTRL_REG_MAX then m_ControlRegs a ! unat Register else 0)"

subsection \<open>InterruptServiceRoutine\<close>

text \<open>The routine only reads the adapter object (\<^verbatim>\<open>that\<close>); it returns its status and
  the machine after its port accesses and callbacks.\<close>

definition InterruptServiceRoutine :: "adapter \<Rightarrow> machine \<Rightarrow> NTSTATUS \<times> machine" where
  "InterruptServiceRoutine that m =
     (let m1 = WRITE_PORT_UCHAR ALG_REG_FM1_ADDR ALG_BANK_CONTROL m;
          (status, m2) = READ_PORT_UCHAR ALG_REG_FM1_ADDR m1;
          m3 = WRITE_PORT_UCHAR ALG_REG_FM1_ADDR ALG_BANK_OPL3 m2
      in if status AND ALG_STATUS_IRQ_MASK = ALG_STATUS_IRQ_MASK then (STATUS_UNSUCCESSFUL, m3)
         else
           (let m6 =
              (if status AND ALG_STATUS_SMP_IRQ = 0 then
                 (let (mmaStatus, m4) = READ_PORT_UCHAR ALG_REG_MMA0_ADDR m3;
                      m5 = (case m_pWaveMiniport that of
                              Some w \<Rightarrow> ServiceWaveISR w m4
                            | None \<Rightarrow> m4)
                  in if mmaStatus AND MMA_STATUS_RRQ \<noteq> 0 then
                       (case m_pMidiMiniport that of
                          Some u \<Rightarrow> ServiceMidiISR u m5
                        | None \<Rightarrow> m5)
                     else m5)
               else m3);
                m7 = (if status AND ALG_STATUS_FM_IRQ = 0
                      then snd (READ_PORT_UCHAR ALG_REG_FM0_ADDR m6)
                      else m6)
            in (STATUS_SUCCESS, m7)))"

subsection \<open>Registry persistence of the mixer settings\<close>

record MIXERSETTING =
  KeyName :: string
  RegisterIndex :: BYTE
  RegisterSetting :: BYTE

definition DefaultMixerSettings :: "MIXERSETTING list" where
  "DefaultMixerSettings =
     [\<lparr>KeyName = ''LeftMasterVol'', RegisterIndex = CTRL_REG_MASTER_VOL_L, RegisterSetting = 0xD8\<rparr>,
      \<lparr>KeyName = ''RightMasterVol'', RegisterIndex = CTRL_REG_MASTER_VOL_R, RegisterSetting = 0xD8\<rparr>,
      \<lparr>KeyName = ''Bass'', RegisterIndex = CTRL_REG_BASS, RegisterSetting = 0xF6\<rparr>,
      \<lparr>KeyName = ''Treble'', RegisterIndex = CTRL_REG_TREBLE, RegisterSetting = 0xF6\<rparr>,
      \<lparr>KeyName = ''OutputMode'', RegisterIndex = CTRL_REG_OUTPUT_MODE, RegisterSetting = 0xC4\<rparr>,
      \<lparr>KeyName = ''LeftFMVol'', RegisterIndex = CTRL_REG_FM_VOL_L, RegisterSetting = 0xC0\<rparr>,
      \<lparr>KeyName = ''RightFMVol'', RegisterIndex = CTRL_REG_FM_VOL_R, RegisterSetting = 0xC0\<rparr>,
      \<lparr>KeyName = ''LeftSampVol'', RegisterIndex = CTRL_REG_SAMP_VOL_L, RegisterSetting = 0xC0\<rparr>,
      \<lparr>KeyName = ''RightSampVol'', RegisterIndex = CTRL_REG_SAMP_VOL_R, RegisterSetting = 0xC0\<rparr>,
      \<lparr>KeyName = ''LeftAuxVol'', RegisterIndex = CTRL_REG_AUX_VOL_L, RegisterSetting = 0xC0\<rparr>,
      \<lparr>KeyName = ''RightAuxVol'', RegisterIndex = CTRL_REG_AUX_VOL_R, RegisterSetting = 0xC0\<rparr>,
      \<lparr>KeyName = ''MicVol'', RegisterIndex = CTRL_REG_MIC_VOL, RegisterSetting = 0x80\<rparr>]"

text \<open>
  What the registry and the pool allocator answer is outside the driver:
  the status of \<^verbatim>\<open>PcNewRegistryKey\<close> and of \<^verbatim>\<open>NewSubKey\<close>, whether the
  disposition is \<^verbatim>\<open>REG_CREATED_NEW_KEY\<close>, whether \<^verbatim>\<open>ExAllocatePool\<close> returns a
  buffer, and for each value name the status, \<^verbatim>\<open>DataLength\<close> and data of
  \<^verbatim>\<open>QueryValueKey\<close>.
\<close>

record registry_env =
  PcNewRegistryKey_status :: NTSTATUS
  NewSubKey_status :: NTSTATUS
  Disposition_created_new :: bool
  ExAllocatePool_ok :: bool
  QueryValueKey :: "string \<Rightarrow> NTSTATUS \<times> nat \<times> DWORD"

text \<open>The loop \<^verbatim>\<open>for (i = 0; i < SIZEOF_ARRAY(DefaultMixerSettings); i++)
  ControlRegWrite(RegisterIndex, RegisterSetting)\<close>, over the entries left.\<close>

fun write_defaults :: "MIXERSETTING list \<Rightarrow> adapter \<Rightarrow> machine \<Rightarrow> adapter \<times> machine" where
  "write_defaults [] a m = (a, m)"
| "write_defaults (e # es) a m =
     (case ControlRegWrite (RegisterIndex e) (RegisterSetting e) a m of
        (a', m') \<Rightarrow> write_defaults es a' m')"

text \<open>The loop of the existing-key branch; \<open>ntStatus\<close> is overwritten by every
  \<^verbatim>\<open>QueryValueKey\<close>.\<close>

fun read_saved :: "registry_env \<Rightarrow> MIXERSETTING list \<Rightarrow> NTSTATUS \<Rightarrow> adapter \<Rightarrow> machine
    \<Rightarrow> NTSTATUS \<times> adapter \<times> machine" where
  "read_saved env [] ntStatus a m = (ntStatus, a, m)"
| "read_saved env (e # es) ntStatus a m =
     (case QueryValueKey env (KeyName e) of
        (qStatus, DataLength, Data) \<Rightarrow>
          if NT_SUCCESS qStatus then
            (if DataLength = 4 then
               (case ControlRegWrite (RegisterIndex e) (ucast Data) a m of
                  (a', m') \<Rightarrow> read_saved env es qStatus a' m')
             else read_saved env es qStatus a m)
          else
            (case ControlRegWrite (RegisterIndex e) (RegisterSetting e) a m of
               (a', m') \<Rightarrow> read_saved env es qStatus a' m'))"

definition RestoreMixerSettingsFromRegistry ::
    "registry_env \<Rightarrow> adapter \<Rightarrow> machine \<Rightarrow> NTSTATUS \<times> adapter \<times> machine" where
  "RestoreMixerSettingsFromRegistry env a m =
     (if NT_SUCCESS (PcNewRegistryKey_status env) then
        (if NT_SUCCESS (NewSubKey_status env) then
           (if Disposition_created_new env then
              (case write_defaults DefaultMixerSettings a m of
                 (a', m') \<Rightarrow> (NewSubKey_status env, a', m'))
            else if ExAllocatePool_ok env then
              read_saved env DefaultMixerSettings (NewSubKey_status env) a m
            else
              (case write_defaults DefaultMixerSettings a m of
                 (a', m') \<Rightarrow> (STATUS_INSUFFICIENT_RESOURCES, a', m')))
         else (NewSubKey_status env, a, m))
      else (PcNewRegistryKey_status env, a, m))"

definition ControlRegReset :: "registry_env \<Rightarrow> adapter \<Rightarrow> machine \<Rightarrow> adapter \<times> machine" where
  "ControlRegReset env a m =
     (case RestoreMixerSettingsFromRegistry env a m of
        (ntStatus, a1, m1) \<Rightarrow>
          (case (if \<not> NT_SUCCESS ntStatus then write_defaults DefaultMixerSettings a1 m1
                 else (a1, m1)) of
             (a2, m2) \<Rightarrow> ControlRegWrite CTRL_REG_RESERVED 0x00 a2 m2))"

subsection \<open>Init\<close>

text \<open>
  What \<^verbatim>\<open>Init\<close> gets from outside: the counts of the resource list, the status
  of \<^verbatim>\<open>PcNewInterruptSync\<close> and whether it stored an object, the status of
  \<^verbatim>\<open>RegisterServiceRoutine\<close> and of \<^verbatim>\<open>Connect\<close>, and the registry.
\<close>

record init_env =
  NumberOfPorts :: nat
  NumberOfInterrupts :: nat
  PcNewInterruptSync_status :: NTSTATUS
  PcNewInterruptSync_object :: bool
  RegisterServiceRoutine_status :: NTSTATUS
  Connect_status :: NTSTATUS
  registry :: registry_env

definition Init :: "init_env \<Rightarrow> adapter \<Rightarrow> machine \<Rightarrow> NTSTATUS \<times> adapter \<times> machine" where
  "Init env a m =
     (if NumberOfPorts env < 1 \<or> NumberOfInterrupts env < 1
      then (STATUS_INSUFFICIENT_RESOURCES, a, m)
      else
        (let a0 = a\<lparr>m_pWaveMiniport := None, m_pMidiMiniport := None,
                    m_pInterruptSync := False, m_PowerState := PowerDeviceD0,
                    m_ControlRegs := replicate CTRL_REG_MAX 0\<rparr>;
             m1 = WRITE_PORT_UCHAR ALG_REG_FM1_ADDR ALG_BANK_CONTROL m;
             (ready, m2) = WaitForReady m1;
             ntStatus1 = (if \<not> ready then STATUS_DEVICE_DOES_NOT_EXIST else STATUS_SUCCESS);
             (ntStatus2, a2, m5) =
               (if NT_SUCCESS ntStatus1 then
                  (let m3 = WRITE_PORT_UCHAR ALG_REG_FM1_ADDR CTRL_REG_CONTROL_ID m2;
                       (idByte, m4) = READ_PORT_UCHAR ALG_REG_FM1_DATA m3;
                       m5 = WRITE_PORT_UCHAR ALG_REG_FM1_ADDR ALG_BANK_OPL3 m4;
                       a1 = a0\<lparr>m_CardModel := idByte AND CTRL_ID_MODEL_MASK,
                                 m_CardOptions := idByte,
                                 m_ControlRegs := (m_ControlRegs a0)[unat CTRL_REG_CONTROL_ID := idByte]\<rparr>
                   in (if unat (m_CardModel a1) > unat ALG_MODEL_GOLD2000MC
                       then STATUS_DEVICE_DOES_NOT_EXIST else ntStatus1, a1, m5))
                else (ntStatus1, a0, m2));
             (ntStatus3, a3) =
               (if NT_SUCCESS ntStatus2 then
                  (let a2' = a2\<lparr>m_pInterruptSync := PcNewInterruptSync_object env\<rparr>
                   in if NT_SUCCESS (PcNewInterruptSync_status env) \<and> m_pInterruptSync a2' then
                        (let st = (if NT_SUCCESS (RegisterServiceRoutine_status env)
                                   then Connect_status env
                                   else RegisterServiceRoutine_status env)
                         in (st, if \<not> NT_SUCCESS st then a2'\<lparr>m_pInterruptSync := False\<rparr> else a2'))
                      else (PcNewInterruptSync_status env, a2'))
                else (ntStatus2, a2))
         in if NT_SUCCESS ntStatus3 then
              (case ControlRegReset (registry env) a3 m5 of (a4, m6) \<Rightarrow> (ntStatus3, a4, m6))
            else (ntStatus3, a3, m5)))"

subsection \<open>EEPROM restore\<close>

text \<open>The read-back loop \<^verbatim>\<open>for (reg = 0; reg < CTRL_REG_MAX; reg++)\<close>; \<open>reg\<close> stays
  below 0x19, so the \<^verbatim>\<open>BYTE\<close> counter never wraps.\<close>

function RestoreFromEEPROM_loop :: "nat \<Rightarrow> adapter \<Rightarrow> machine \<Rightarrow> adapter \<times> machine" where
  "RestoreFromEEPROM_loop reg a m =
     (if reg < CTRL_REG_MAX then
        (let m1 = WRITE_PORT_UCHAR ALG_REG_FM1_ADDR (of_nat reg) m;
             (v, m2) = READ_PORT_UCHAR ALG_REG_FM1_DATA m1
         in RestoreFromEEPROM_loop (Suc reg) (a\<lparr>m_ControlRegs := (m_ControlRegs a)[reg := v]\<rparr>) m2)
      else (a, m))"
  by pat_completeness auto
termination
  by (relation "measure (\<lambda>(reg, a, m). CTRL_REG_MAX - reg)") auto

declare RestoreFromEEPROM_loop.simps [simp del]

definition RestoreFromEEPROM :: "adapter \<Rightarrow> machine \<Rightarrow> NTSTATUS \<times> adapter \<times> machine" where
  "RestoreFromEEPROM a m =
     (if power_value (m_PowerState a) > power_value PowerDeviceD1
      then (STATUS_DEVICE_POWERED_OFF, a, m)
      else
        (let m1 = WRITE_PORT_UCHAR ALG_REG_FM1_ADDR ALG_BANK_CONTROL m;
             m2 = snd (WaitForReady m1);
             m3 = WRITE_PORT_UCHAR ALG_REG_FM1_ADDR CTRL_REG_CONTROL_ID m2;
             m4 = WRITE_PORT_UCHAR ALG_REG_FM1_DATA CTRL_ID_RESTORE m3;
             m5 = KeStallExecutionProcessor 2500 m4;
             m6 = snd (WaitForReady m5);
             (a1, m7) = RestoreFromEEPROM_loop 0 a m6;
             m8 = WRITE_PORT_UCHAR ALG_REG_FM1_ADDR ALG_BANK_OPL3 m7;
             a2 = a1\<lparr>m_CardModel := m_ControlRegs a1 ! unat CTRL_REG_CONTROL_ID AND CTRL_ID_MODEL_MASK\<rparr>;
             a3 = a2\<lparr>m_CardOptions := m_ControlRegs a2 ! unat CTRL_REG_CONTROL_ID\<rparr>
         in (STATUS_SUCCESS, a3, m8)))"

subsection \<open>PowerChangeState\<close>

text \<open>The replay loop \<^verbatim>\<open>for (i = CTRL_MIXER_FIRST; i <= CTRL_MIXER_LAST; i++)\<close>; \<open>i\<close>
  stays at most 0x10.\<close>

function PowerChangeState_loop :: "nat \<Rightarrow> adapter \<Rightarrow> machine \<Rightarrow> adapter \<times> machine" where
  "PowerChangeState_loop i a m =
     (if i \<le> CTRL_MIXER_LAST then
        (case ControlRegWrite (of_nat i) (m_ControlRegs a ! i) a m of
           (a', m') \<Rightarrow> PowerChangeState_loop (Suc i) a' m')
      else (a, m))"
  by pat_completeness auto
termination
  by (relation "measure (\<lambda>(i, a, m). Suc CTRL_MIXER_LAST - i)") auto

declare PowerChangeState_loop.simps [simp del]

definition PowerChangeState :: "DEVICE_POWER_STATE \<Rightarrow> adapter \<Rightarrow> machine \<Rightarrow> adapter \<times> machine" where
  "PowerChangeState NewState a m =
     (if NewState \<noteq> m_PowerState a then
        (case NewState of
           PowerDeviceD0 \<Rightarrow> PowerChangeState_loop CTRL_MIXER_FIRST (a\<lparr>m_PowerState := NewState\<rparr>) m
         | PowerDeviceD1 \<Rightarrow> (a\<lparr>m_PowerState := NewState\<rparr>, m)
         | PowerDeviceD2 \<Rightarrow> (a\<lparr>m_PowerState := NewState\<rparr>, m)
         | PowerDeviceD3 \<Rightarrow> (a\<lparr>m_PowerState := NewState\<rparr>, m)
         | _ \<Rightarrow> (a, m))
      else (a, m))"

subsection \<open>Reading the trace\<close>

text \<open>The values written to port \<open>p\<close>, and the values read from it, in the order of
  the trace.\<close>

fun port_writes :: "nat \<Rightarrow> event list \<Rightarrow> UCHAR list" where
  "port_writes p [] = []"
| "port_writes p (PortWrite q v # es) = (if q = p then v # port_writes p es else port_writes p es)"
| "port_writes p (e # es) = port_writes p es"

fun port_reads :: "nat \<Rightarrow> event list \<Rightarrow> UCHAR list" where
  "port_reads p [] = []"
| "port_reads p (PortRead q v # es) = (if q = p then v # port_reads p es else port_reads p es)"
| "port_reads p (e # es) = port_reads p es"

text \<open>The miniport service calls of a trace.\<close>

fun wave_calls :: "event list \<Rightarrow> nat list" where
  "wave_calls [] = []"
| "wave_calls (WaveISR h # es) = h # wave_calls es"
| "wave_calls (e # es) = wave_calls es"

fun midi_calls :: "event list \<Rightarrow> nat list" where
  "midi_calls [] = []"
| "midi_calls (MidiISR h # es) = h # midi_calls es"
| "midi_calls (e # es) = midi_calls es"

text \<open>All port writes of a trace, as (port offset, value), in order.\<close>

fun all_writes :: "event list \<Rightarrow> (nat \<times> UCHAR) list" where
  "all_writes [] = []"
| "all_writes (PortWrite p v # es) = (p, v) # all_writes es"
| "all_writes (e # es) = all_writes es"

text \<open>The port writes of one replayed register \<open>k\<close> on resume: bank select, index,
  the cached value, bank restore.\<close>

definition replay_writes :: "BYTE list \<Rightarrow> nat \<Rightarrow> (nat \<times> UCHAR) list" where
  "replay_writes regs k =
     [(ALG_REG_FM1_ADDR, ALG_BANK_CONTROL), (ALG_REG_FM1_ADDR, of_nat k),
      (ALG_REG_FM1_DATA, regs ! k), (ALG_REG_FM1_ADDR, ALG_BANK_OPL3)]"

text \<open>The events of reading register \<open>k\<close> back from the Control Chip: the index is
  written to base+2 and the byte \<open>regs ! k\<close> is read from base+3.\<close>

definition readback_events :: "BYTE list \<Rightarrow> nat \<Rightarrow> event list" where
  "readback_events regs k =
     [PortWrite ALG_REG_FM1_ADDR (of_nat k), PortRead ALG_REG_FM1_DATA (regs ! k)]"

text \<open>A busy-poll seen in the trace: between 1 and 1000 reads of the status port
  base+2, and nothing else.\<close>

fun is_status_read :: "event \<Rightarrow> bool" where
  "is_status_read (PortRead p v) = (p = ALG_REG_FM1_ADDR)"
| "is_status_read e = False"

definition is_status_poll :: "event list \<Rightarrow> bool" where
  "is_status_poll w = (w \<noteq> [] \<and> length w \<le> 1000 \<and> list_all is_status_read w)"

text \<open>The busy-poll that the hardware determines: \<open>poll_from f n w\<close> says that \<open>w\<close>
  is a busy-poll whose \<open>j\<close>-th event reads from base+2 the byte \<open>f (n + j)\<close>
  gives for that port, that every read but the last shows a busy bit, and that
  the last one shows a busy bit only when the budget of 1000 reads is used up.\<close>

definition poll_from :: "(nat \<Rightarrow> nat \<Rightarrow> UCHAR) \<Rightarrow> nat \<Rightarrow> event list \<Rightarrow> bool" where
  "poll_from f n w =
     (is_status_poll w
      \<and> w = map (\<lambda>j. PortRead ALG_REG_FM1_ADDR (f (n + j) ALG_REG_FM1_ADDR)) [0..<length w]
      \<and> list_all (\<lambda>j. f (n + j) ALG_REG_FM1_ADDR AND ALG_STATUS_BUSY_MASK \<noteq> 0) [0..<length w - 1]
      \<and> (f (n + (length w - 1)) ALG_REG_FM1_ADDR AND ALG_STATUS_BUSY_MASK \<noteq> 0 \<longrightarrow> length w = 1000))"

text \<open>The settle step 5 of \<^verbatim>\<open>ControlRegWrite\<close> seen in the trace: a busy-poll for
  registers 0x04 to 0x08, a stall of 5 microseconds for 0x09 to 0x16, nothing for
  the others.\<close>

definition settle_ok :: "BYTE \<Rightarrow> event list \<Rightarrow> bool" where
  "settle_ok r st =
     (if 0x04 \<le> unat r \<and> unat r \<le> 0x08 then is_status_poll st
      else if 0x09 \<le> unat r \<and> unat r \<le> 0x16 then st = [Stall 5]
      else st = [])"

text \<open>The shadow cache is an array of \<^verbatim>\<open>CTRL_REG_MAX\<close> bytes.\<close>

definition cache_ok :: "adapter \<Rightarrow> bool" where
  "cache_ok a = (length (m_ControlRegs a) = CTRL_REG_MAX)"

text \<open>Hardware is touched only at \<^verbatim>\<open>m_PowerState <= PowerDeviceD1\<close>.\<close>

definition operative :: "adapter \<Rightarrow> bool" where
  "operative a = (power_value (m_PowerState a) \<le> power_value PowerDeviceD1)"

text \<open>The byte the next port read returns on port \<open>p\<close>, and the one after it.\<close>

definition next_input :: "nat \<Rightarrow> machine \<Rightarrow> UCHAR" where
  "next_input p m = port_input m (reads_done m) p"

definition second_input :: "nat \<Rightarrow> machine \<Rightarrow> UCHAR" where
  "second_input p m = port_input m (Suc (reads_done m)) p"

text \<open>The identity probe of \<^verbatim>\<open>Init\<close>: whether \<^verbatim>\<open>WaitForReady\<close> reports the card
  ready after the bank select, and the byte that the read of base+3 then returns
  after register 0 is selected.\<close>

definition Init_ready :: "machine \<Rightarrow> bool" where
  "Init_ready m = fst (WaitForReady (WRITE_PORT_UCHAR ALG_REG_FM1_ADDR ALG_BANK_CONTROL m))"

definition Init_idByte :: "machine \<Rightarrow> BYTE" where
  "Init_idByte m =
     fst (READ_PORT_UCHAR ALG_REG_FM1_DATA
       (WRITE_PORT_UCHAR ALG_REG_FM1_ADDR CTRL_REG_CONTROL_ID
         (snd (WaitForReady (WRITE_PORT_UCHAR ALG_REG_FM1_ADDR ALG_BANK_CONTROL m)))))"

text \<open>Interrupt set-up of \<^verbatim>\<open>Init\<close> succeeds: \<^verbatim>\<open>PcNewInterruptSync\<close> does, and when it
  stored an object, so do \<^verbatim>\<open>RegisterServiceRoutine\<close> and \<^verbatim>\<open>Connect\<close>.\<close>

definition sync_ok :: "init_env \<Rightarrow> bool" where
  "sync_ok env =
     (NT_SUCCESS (PcNewInterruptSync_status env) \<and>
      (\<not> PcNewInterruptSync_object env \<or>
       (NT_SUCCESS (RegisterServiceRoutine_status env) \<and> NT_SUCCESS (Connect_status env))))"

subsection \<open>Concrete states\<close>

text \<open>An adapter object in power state \<open>ps\<close> with a zeroed shadow cache and the given
  miniports, and a machine with an empty trace whose ports answer by \<open>f\<close>.\<close>

definition adapter_in :: "DEVICE_POWER_STATE \<Rightarrow> nat option \<Rightarrow> nat option \<Rightarrow> adapter" where
  "adapter_in ps wave midi =
     \<lparr>m_pInterruptSync = True, m_PowerState = ps, m_ControlRegs = replicate CTRL_REG_MAX 0,
      m_CardModel = 0x01, m_CardOptions = 0x01, m_pWaveMiniport = wave, m_pMidiMiniport = midi\<rparr>"

definition machine_with :: "(nat \<Rightarrow> nat \<Rightarrow> UCHAR) \<Rightarrow> machine" where
  "machine_with f = \<lparr>port_input = f, reads_done = 0, io_trace = []\<rparr>"

text \<open>A registry whose driver key cannot be opened, and the environment of
  \<^verbatim>\<open>Init\<close> with one port range, one interrupt, an interrupt-sync object that
  registers, and the given status of \<^verbatim>\<open>Connect\<close>.\<close>

definition registry_absent :: registry_env where
  "registry_absent =
     \<lparr>PcNewRegistryKey_status = STATUS_UNSUCCESSFUL, NewSubKey_status = STATUS_UNSUCCESSFUL,
      Disposition_created_new = False, ExAllocatePool_ok = True,
      QueryValueKey = (\<lambda>k. (STATUS_UNSUCCESSFUL, 0, 0))\<rparr>"

definition init_env_with :: "NTSTATUS \<Rightarrow> init_env" where
  "init_env_with connect =
     \<lparr>NumberOfPorts = 1, NumberOfInterrupts = 1,
      PcNewInterruptSync_status = STATUS_SUCCESS, PcNewInterruptSync_object = True,
      RegisterServiceRoutine_status = STATUS_SUCCESS, Connect_status = connect,
      registry = registry_absent\<rparr>"

section \<open>Auxiliary lemmas\<close>

subsection \<open>Projections of a trace\<close>

lemma port_writes_append [simp]: "port_writes p (xs @ ys) = port_writes p xs @ port_writes p ys"
  by (induction p xs rule: port_writes.induct) auto

lemma port_reads_append [simp]: "port_reads p (xs @ ys) = port_reads p xs @ port_reads p ys"
  by (induction p xs rule: port_reads.induct) auto

lemma wave_calls_append [simp]: "wave_calls (xs @ ys) = wave_calls xs @ wave_calls ys"
  by (induction xs rule: wave_calls.induct) auto

lemma midi_calls_append [simp]: "midi_calls (xs @ ys) = midi_calls xs @ midi_calls ys"
  by (induction xs rule: midi_calls.induct) auto

lemma status_reads_writes: "list_all is_status_read w \<Longrightarrow> port_writes p w = []"
proof (induction w)
  case Nil
  then show ?case by simp
next
  case (Cons e w)
  then show ?case by (cases e) auto
qed

lemma status_reads_reads: "list_all is_status_read w \<Longrightarrow> p \<noteq> ALG_REG_FM1_ADDR \<Longrightarrow> port_reads p w = []"
  by (induction p w rule: port_reads.induct) auto

lemma poll_writes [simp]: "is_status_poll w \<Longrightarrow> port_writes p w = []"
  by (simp add: is_status_poll_def status_reads_writes)

lemma poll_other_reads [simp]:
  "is_status_poll w \<Longrightarrow> p \<noteq> ALG_REG_FM1_ADDR \<Longrightarrow> port_reads p w = []"
  by (simp add: is_status_poll_def status_reads_reads)

lemma status_reads_map: "list_all is_status_read (map (PortRead ALG_REG_FM1_ADDR) vs)"
  by (induction vs) auto

lemma port_reads_map: "port_reads p (map (PortRead p) vs) = vs"
  by (induction vs) auto

subsection \<open>The busy-poll\<close>

lemma WaitForReady_loop_polls:
  "0 < n \<Longrightarrow> \<exists>vs. io_trace (snd (WaitForReady_loop n m)) = io_trace m @ map (PortRead ALG_REG_FM1_ADDR) vs
      \<and> vs \<noteq> [] \<and> length vs \<le> n
      \<and> (\<forall>x \<in> set (butlast vs). x AND ALG_STATUS_BUSY_MASK \<noteq> 0)
      \<and> (fst (WaitForReady_loop n m) = 0 \<longleftrightarrow> last vs AND ALG_STATUS_BUSY_MASK \<noteq> 0)
      \<and> (last vs AND ALG_STATUS_BUSY_MASK \<noteq> 0 \<longrightarrow> length vs = n)"
proof (induction n m rule: WaitForReady_loop.induct)
  case (1 timeout m)
  obtain status m' where rd: "READ_PORT_UCHAR ALG_REG_FM1_ADDR m = (status, m')"
    by (cases "READ_PORT_UCHAR ALG_REG_FM1_ADDR m")
  then have tr: "io_trace m' = io_trace m @ [PortRead ALG_REG_FM1_ADDR status]"
    by (auto simp: READ_PORT_UCHAR_def Let_def)
  show ?case
  proof (cases "status AND ALG_STATUS_BUSY_MASK \<noteq> 0 \<and> timeout - 1 \<noteq> 0")
    case True
    then have "0 < timeout - 1" by simp
    from True have b: "status AND ALG_STATUS_BUSY_MASK \<noteq> 0" and t: "timeout - 1 \<noteq> 0" by auto
    from "1.IH"[OF rd[symmetric] b t \<open>0 < timeout - 1\<close>]
    obtain vs where vs: "io_trace (snd (WaitForReady_loop (timeout - 1) m')) =
          io_trace m' @ map (PortRead ALG_REG_FM1_ADDR) vs
      \<and> vs \<noteq> [] \<and> length vs \<le> timeout - 1
      \<and> (\<forall>x \<in> set (butlast vs). x AND ALG_STATUS_BUSY_MASK \<noteq> 0)
      \<and> (fst (WaitForReady_loop (timeout - 1) m') = 0 \<longleftrightarrow> last vs AND ALG_STATUS_BUSY_MASK \<noteq> 0)
      \<and> (last vs AND ALG_STATUS_BUSY_MASK \<noteq> 0 \<longrightarrow> length vs = timeout - 1)"
      by (elim exE)
    have eq: "WaitForReady_loop timeout m = WaitForReady_loop (timeout - 1) m'"
      using True rd by (subst WaitForReady_loop.simps) simp
    show ?thesis
      apply (rule exI[of _ "status # vs"])
      using vs True tr "1.prems" by (auto simp: eq)
  next
    case False
    have eq: "WaitForReady_loop timeout m =
        (if status AND ALG_STATUS_BUSY_MASK \<noteq> 0 then (timeout - 1, m') else (timeout, m'))"
      using False rd by (subst WaitForReady_loop.simps) auto
    show ?thesis
      apply (rule exI[of _ "[status]"])
      using False tr "1.prems" by (auto simp: eq)
  qed
qed

lemma WaitForReady_poll:
  "\<exists>w. io_trace (snd (WaitForReady m)) = io_trace m @ w \<and> is_status_poll w
      \<and> (\<not> fst (WaitForReady m) \<longleftrightarrow>
           length w = 1000 \<and> list_all (\<lambda>v. v AND ALG_STATUS_BUSY_MASK \<noteq> 0) (port_reads ALG_REG_FM1_ADDR w))"
proof -
  have "(0::nat) < 1000" by simp
  from WaitForReady_loop_polls[OF this, of m]
  obtain vs where c: "io_trace (snd (WaitForReady_loop 1000 m)) = io_trace m @ map (PortRead ALG_REG_FM1_ADDR) vs
      \<and> vs \<noteq> [] \<and> length vs \<le> 1000
      \<and> (\<forall>x \<in> set (butlast vs). x AND ALG_STATUS_BUSY_MASK \<noteq> 0)
      \<and> (fst (WaitForReady_loop 1000 m) = 0 \<longleftrightarrow> last vs AND ALG_STATUS_BUSY_MASK \<noteq> 0)
      \<and> (last vs AND ALG_STATUS_BUSY_MASK \<noteq> 0 \<longrightarrow> length vs = 1000)"
    by (elim exE)
  then have vs: "io_trace (snd (WaitForReady_loop 1000 m)) = io_trace m @ map (PortRead ALG_REG_FM1_ADDR) vs"
      "vs \<noteq> []" "length vs \<le> 1000"
      "\<forall>x \<in> set (butlast vs). x AND ALG_STATUS_BUSY_MASK \<noteq> 0"
      "fst (WaitForReady_loop 1000 m) = 0 \<longleftrightarrow> last vs AND ALG_STATUS_BUSY_MASK \<noteq> 0"
      "last vs AND ALG_STATUS_BUSY_MASK \<noteq> 0 \<longrightarrow> length vs = 1000"
    by blast+
  have all: "(\<forall>x \<in> set vs. x AND ALG_STATUS_BUSY_MASK \<noteq> 0) \<longleftrightarrow> last vs AND ALG_STATUS_BUSY_MASK \<noteq> 0"
  proof -
    have "vs = butlast vs @ [last vs]" using vs(2) by simp
    then have "set vs = insert (last vs) (set (butlast vs))"
      by (metis Un_insert_right append_Nil2 list.simps(15) set_append)
    with vs(4) show ?thesis by auto
  qed
  show ?thesis
    apply (rule exI[of _ "map (PortRead ALG_REG_FM1_ADDR) vs"])
    using vs all
    by (auto simp: WaitForReady_def split_beta is_status_poll_def status_reads_map[simplified]
        port_reads_map list_all_iff)
qed


lemma WaitForReady_poll_snd:
  "\<exists>w. io_trace (snd (WaitForReady m)) = io_trace m @ w \<and> is_status_poll w"
  using WaitForReady_poll[of m] by blast

subsection \<open>The events of ControlRegWrite\<close>

lemma settle_writes [simp]: "settle_ok r st \<Longrightarrow> port_writes p st = []"
  by (auto simp: settle_ok_def split: if_splits)

lemma settle_other_reads [simp]:
  "settle_ok r st \<Longrightarrow> p \<noteq> ALG_REG_FM1_ADDR \<Longrightarrow> port_reads p st = []"
  by (auto simp: settle_ok_def split: if_splits)

lemma ControlRegWrite_fst:
  "fst (ControlRegWrite r v a m) =
     (if unat r < CTRL_REG_MAX then a\<lparr>m_ControlRegs := (m_ControlRegs a)[unat r := v]\<rparr> else a)"
  by (simp add: ControlRegWrite_def Let_def)

lemma ControlRegWrite_off: "\<not> operative a \<Longrightarrow> snd (ControlRegWrite r v a m) = m"
  by (simp add: ControlRegWrite_def Let_def operative_def)

lemma ControlRegWrite_on:
  assumes "operative a"
  shows "\<exists>w st. io_trace (snd (ControlRegWrite r v a m)) =
           io_trace m @ PortWrite ALG_REG_FM1_ADDR ALG_BANK_CONTROL # w
             @ [PortWrite ALG_REG_FM1_ADDR r, PortWrite ALG_REG_FM1_DATA v] @ st
             @ [PortWrite ALG_REG_FM1_ADDR ALG_BANK_OPL3]
         \<and> is_status_poll w \<and> settle_ok r st
         \<and> (\<not> fst (WaitForReady (WRITE_PORT_UCHAR ALG_REG_FM1_ADDR ALG_BANK_CONTROL m)) \<longleftrightarrow>
              length w = 1000 \<and>
              list_all (\<lambda>x. x AND ALG_STATUS_BUSY_MASK \<noteq> 0) (port_reads ALG_REG_FM1_ADDR w))"
proof -
  define m1 where "m1 = WRITE_PORT_UCHAR ALG_REG_FM1_ADDR ALG_BANK_CONTROL m"
  obtain w where w: "io_trace (snd (WaitForReady m1)) = io_trace m1 @ w" "is_status_poll w"
    "\<not> fst (WaitForReady m1) \<longleftrightarrow>
       length w = 1000 \<and> list_all (\<lambda>x. x AND ALG_STATUS_BUSY_MASK \<noteq> 0) (port_reads ALG_REG_FM1_ADDR w)"
    using WaitForReady_poll[of m1] by blast
  define m4 where "m4 = WRITE_PORT_UCHAR ALG_REG_FM1_DATA v
      (WRITE_PORT_UCHAR ALG_REG_FM1_ADDR r (snd (WaitForReady m1)))"
  define m5 where "m5 = (if 0x04 \<le> unat r \<and> unat r \<le> 0x08 then snd (WaitForReady m4)
                      else if 0x09 \<le> unat r \<and> unat r \<le> 0x16
                           then KeStallExecutionProcessor 5 m4
                      else m4)"
  have "\<exists>st. io_trace m5 = io_trace m4 @ st \<and> settle_ok r st"
  proof (cases "0x04 \<le> unat r \<and> unat r \<le> 0x08")
    case True
    then show ?thesis
      using WaitForReady_poll_snd[of m4] by (simp add: m5_def settle_ok_def)
  next
    case False
    then show ?thesis
      by (auto simp: m5_def settle_ok_def KeStallExecutionProcessor_def)
  qed
  then obtain st where st: "io_trace m5 = io_trace m4 @ st" "settle_ok r st" by blast
  have res: "snd (ControlRegWrite r v a m) = WRITE_PORT_UCHAR ALG_REG_FM1_ADDR ALG_BANK_OPL3 m5"
    using assms by (simp add: ControlRegWrite_def Let_def operative_def m5_def m4_def m1_def)
  have "io_trace (snd (ControlRegWrite r v a m)) =
           io_trace m @ PortWrite ALG_REG_FM1_ADDR ALG_BANK_CONTROL # w
             @ [PortWrite ALG_REG_FM1_ADDR r, PortWrite ALG_REG_FM1_DATA v] @ st
             @ [PortWrite ALG_REG_FM1_ADDR ALG_BANK_OPL3]"
    using w(1) st(1) by (simp add: res m4_def m1_def WRITE_PORT_UCHAR_def)
  with w(2,3) st(2) show ?thesis unfolding m1_def by blast
qed

lemma ControlRegWrite_cache_ok: "cache_ok a \<Longrightarrow> cache_ok (fst (ControlRegWrite r v a m))"
  by (simp add: ControlRegWrite_fst cache_ok_def)


subsection \<open>A status port that stays busy\<close>

lemma WaitForReady_loop_always_busy:
  "\<forall>n p. port_input m n p AND ALG_STATUS_BUSY_MASK \<noteq> 0 \<Longrightarrow> 0 < t \<Longrightarrow>
     fst (WaitForReady_loop t m) = 0"
proof (induction t m rule: WaitForReady_loop.induct)
  case (1 timeout m)
  obtain status m' where rd: "READ_PORT_UCHAR ALG_REG_FM1_ADDR m = (status, m')"
    by (cases "READ_PORT_UCHAR ALG_REG_FM1_ADDR m")
  then have busy: "status AND ALG_STATUS_BUSY_MASK \<noteq> 0" and inp: "port_input m' = port_input m"
    using "1.prems"(1) by (auto simp: READ_PORT_UCHAR_def Let_def)
  show ?case
  proof (cases "timeout - 1 \<noteq> 0")
    case True
    have "fst (WaitForReady_loop (timeout - 1) m') = 0"
      using "1.IH"[OF rd[symmetric] busy True] "1.prems"(1) True inp by simp
    then show ?thesis
      using True rd busy by (subst WaitForReady_loop.simps) simp
  next
    case False
    then show ?thesis
      using rd busy by (subst WaitForReady_loop.simps) simp
  qed
qed

lemma WaitForReady_always_busy:
  "\<forall>n p. port_input m n p AND ALG_STATUS_BUSY_MASK \<noteq> 0 \<Longrightarrow> \<not> fst (WaitForReady m)"
  using WaitForReady_loop_always_busy[of m 1000] by (simp add: WaitForReady_def split_beta)

subsection \<open>The replay on resume\<close>

lemma all_writes_append [simp]: "all_writes (xs @ ys) = all_writes xs @ all_writes ys"
  by (induction xs rule: all_writes.induct) auto

lemma status_reads_all_writes: "list_all is_status_read w \<Longrightarrow> all_writes w = []"
proof (induction w)
  case Nil
  then show ?case by simp
next
  case (Cons e w)
  then show ?case by (cases e) auto
qed

lemma poll_all_writes [simp]: "is_status_poll w \<Longrightarrow> all_writes w = []"
  by (simp add: is_status_poll_def status_reads_all_writes)

lemma settle_all_writes [simp]: "settle_ok r st \<Longrightarrow> all_writes st = []"
  by (auto simp: settle_ok_def split: if_splits)

lemma ControlRegWrite_all_writes:
  assumes "operative a"
  shows "all_writes (io_trace (snd (ControlRegWrite r v a m))) =
           all_writes (io_trace m)
           @ [(ALG_REG_FM1_ADDR, ALG_BANK_CONTROL), (ALG_REG_FM1_ADDR, r),
              (ALG_REG_FM1_DATA, v), (ALG_REG_FM1_ADDR, ALG_BANK_OPL3)]"
proof -
  from ControlRegWrite_on[OF assms, of r v m] obtain w st where
    "io_trace (snd (ControlRegWrite r v a m)) =
           io_trace m @ PortWrite ALG_REG_FM1_ADDR ALG_BANK_CONTROL # w
             @ [PortWrite ALG_REG_FM1_ADDR r, PortWrite ALG_REG_FM1_DATA v] @ st
             @ [PortWrite ALG_REG_FM1_ADDR ALG_BANK_OPL3]" "is_status_poll w" "settle_ok r st"
    by blast
  then show ?thesis by simp
qed

lemma ControlRegWrite_same:
  assumes "cache_ok a" and "i < CTRL_REG_MAX"
  shows "fst (ControlRegWrite (of_nat i) (m_ControlRegs a ! i) a m) = a"
proof -
  have "unat (of_nat i :: BYTE) = i"
    using assms(2) by (simp add: unat_of_nat)
  then show ?thesis
    using assms by (simp add: ControlRegWrite_fst cache_ok_def)
qed

lemma PowerChangeState_loop_replay:
  "cache_ok a \<Longrightarrow> operative a \<Longrightarrow> i \<le> Suc CTRL_MIXER_LAST \<Longrightarrow>
     fst (PowerChangeState_loop i a m) = a \<and>
     all_writes (io_trace (snd (PowerChangeState_loop i a m))) =
       all_writes (io_trace m)
       @ concat (map (replay_writes (m_ControlRegs a)) [i..<Suc CTRL_MIXER_LAST])"
proof (induction i a m rule: PowerChangeState_loop.induct)
  case (1 i a m)
  show ?case
  proof (cases "i \<le> CTRL_MIXER_LAST")
    case True
    obtain a' m' where cw: "ControlRegWrite (of_nat i) (m_ControlRegs a ! i) a m = (a', m')"
      by (cases "ControlRegWrite (of_nat i) (m_ControlRegs a ! i) a m")
    have a': "a' = a"
      using ControlRegWrite_same[OF "1.prems"(1), of i m] True cw by simp
    have tr: "all_writes (io_trace m') = all_writes (io_trace m) @ replay_writes (m_ControlRegs a) i"
      using ControlRegWrite_all_writes[OF "1.prems"(2), of "of_nat i" "m_ControlRegs a ! i" m] cw
      by (simp add: replay_writes_def)
    have ih: "fst (PowerChangeState_loop (Suc i) a m') = a \<and>
        all_writes (io_trace (snd (PowerChangeState_loop (Suc i) a m'))) =
          all_writes (io_trace m')
          @ concat (map (replay_writes (m_ControlRegs a)) [Suc i..<Suc CTRL_MIXER_LAST])"
      using "1.IH"[OF True cw[symmetric]] "1.prems" True a' by simp
    have step: "PowerChangeState_loop i a m = PowerChangeState_loop (Suc i) a m'"
      using True cw a' by (subst PowerChangeState_loop.simps) simp
    have up: "[i..<Suc CTRL_MIXER_LAST] = i # [Suc i..<Suc CTRL_MIXER_LAST]"
      using True by (simp add: upt_conv_Cons)
    show ?thesis
      using ih tr by (simp only: step up list.map concat.simps append_assoc)
  next
    case False
    then have "i = Suc CTRL_MIXER_LAST" using "1.prems"(3) by simp
    then show ?thesis
      by (subst (1 2) PowerChangeState_loop.simps) simp
  qed
qed

subsection \<open>The read-back after an EEPROM restore\<close>

lemma readback_port_reads:
  "port_reads ALG_REG_FM1_DATA (concat (map (readback_events regs) ks)) = map ((!) regs) ks"
  by (induction ks) (simp_all add: readback_events_def)

lemma RestoreFromEEPROM_loop_readback:
  "cache_ok a \<Longrightarrow> reg \<le> CTRL_REG_MAX \<Longrightarrow>
     cache_ok (fst (RestoreFromEEPROM_loop reg a m)) \<and>
     take reg (m_ControlRegs (fst (RestoreFromEEPROM_loop reg a m))) = take reg (m_ControlRegs a) \<and>
     fst (RestoreFromEEPROM_loop reg a m) =
       a\<lparr>m_ControlRegs := m_ControlRegs (fst (RestoreFromEEPROM_loop reg a m))\<rparr> \<and>
     io_trace (snd (RestoreFromEEPROM_loop reg a m)) =
       io_trace m
       @ concat (map (readback_events (m_ControlRegs (fst (RestoreFromEEPROM_loop reg a m))))
                  [reg..<CTRL_REG_MAX])"
proof (induction reg a m rule: RestoreFromEEPROM_loop.induct)
  case (1 reg a m)
  show ?case
  proof (cases "reg < CTRL_REG_MAX")
    case True
    define m1 where "m1 = WRITE_PORT_UCHAR ALG_REG_FM1_ADDR (of_nat reg) m"
    obtain v m2 where rd: "READ_PORT_UCHAR ALG_REG_FM1_DATA m1 = (v, m2)"
      by (cases "READ_PORT_UCHAR ALG_REG_FM1_DATA m1")
    define a1 where "a1 = a\<lparr>m_ControlRegs := (m_ControlRegs a)[reg := v]\<rparr>"
    define R where "R = RestoreFromEEPROM_loop (Suc reg) a1 m2"
    have step: "RestoreFromEEPROM_loop reg a m = R"
      using True rd unfolding R_def a1_def m1_def
      by (subst RestoreFromEEPROM_loop.simps) (simp add: Let_def)
    have tr2: "io_trace m2 = io_trace m @ [PortWrite ALG_REG_FM1_ADDR (of_nat reg), PortRead ALG_REG_FM1_DATA v]"
      using rd by (auto simp: m1_def READ_PORT_UCHAR_def WRITE_PORT_UCHAR_def Let_def)
    have c1: "cache_ok a1" using "1.prems"(1) by (simp add: a1_def cache_ok_def)
    have len: "reg < length (m_ControlRegs a)" using True "1.prems"(1) by (simp add: cache_ok_def)
    have ih: "cache_ok (fst R) \<and>
        take (Suc reg) (m_ControlRegs (fst R)) = take (Suc reg) (m_ControlRegs a1) \<and>
        fst R = a1\<lparr>m_ControlRegs := m_ControlRegs (fst R)\<rparr> \<and>
        io_trace (snd R) = io_trace m2
          @ concat (map (readback_events (m_ControlRegs (fst R))) [Suc reg..<CTRL_REG_MAX])"
      unfolding R_def
      using "1.IH"[OF True m1_def rd[symmetric] refl, folded a1_def] c1 True
      by simp
    from ih have tk: "take (Suc reg) (m_ControlRegs (fst R)) = take (Suc reg) (m_ControlRegs a1)"
      by blast
    have nth: "m_ControlRegs (fst R) ! reg = v"
    proof -
      have "m_ControlRegs (fst R) ! reg = take (Suc reg) (m_ControlRegs (fst R)) ! reg" by simp
      also have "\<dots> = take (Suc reg) (m_ControlRegs a1) ! reg" by (simp only: tk)
      also have "\<dots> = v" using len by (simp add: a1_def)
      finally show ?thesis .
    qed
    have tk': "take reg (m_ControlRegs (fst R)) = take reg (m_ControlRegs a)"
    proof -
      have "take reg (m_ControlRegs (fst R)) = take reg (take (Suc reg) (m_ControlRegs (fst R)))"
        by (simp add: min_def)
      also have "\<dots> = take reg (take (Suc reg) (m_ControlRegs a1))" by (simp only: tk)
      also have "\<dots> = take reg (m_ControlRegs a)" by (simp add: a1_def min_def)
      finally show ?thesis .
    qed
    have fr: "fst R = a\<lparr>m_ControlRegs := m_ControlRegs (fst R)\<rparr>"
    proof -
      from ih have "fst R = a1\<lparr>m_ControlRegs := m_ControlRegs (fst R)\<rparr>" by blast
      then show ?thesis by (simp add: a1_def)
    qed
    have up: "[reg..<CTRL_REG_MAX] = reg # [Suc reg..<CTRL_REG_MAX]"
      using True by (simp add: upt_conv_Cons)
    have tr: "io_trace (snd R) = io_trace m
          @ concat (map (readback_events (m_ControlRegs (fst R))) [reg..<CTRL_REG_MAX])"
      using ih tr2 nth by (simp only: up list.map concat.simps) (simp add: readback_events_def)
    from ih tk' fr tr show ?thesis unfolding step by blast
  next
    case False
    then have "reg = CTRL_REG_MAX" using "1.prems"(2) by simp
    then show ?thesis
      using "1.prems"(1) by (subst (1 2 3 4 5) RestoreFromEEPROM_loop.simps) simp
  qed
qed

subsection \<open>Status codes and model codes\<close>

lemma NT_SUCCESS_consts [simp]:
  "NT_SUCCESS STATUS_SUCCESS"
  "\<not> NT_SUCCESS STATUS_UNSUCCESSFUL"
  "\<not> NT_SUCCESS STATUS_INSUFFICIENT_RESOURCES"
  "\<not> NT_SUCCESS STATUS_DEVICE_DOES_NOT_EXIST"
  "\<not> NT_SUCCESS STATUS_DEVICE_POWERED_OFF"
  by (simp_all add: NT_SUCCESS_def STATUS_SUCCESS_def STATUS_UNSUCCESSFUL_def
      STATUS_INSUFFICIENT_RESOURCES_def STATUS_DEVICE_DOES_NOT_EXIST_def
      STATUS_DEVICE_POWERED_OFF_def)

lemma model_recognized:
  "unat (w :: BYTE) \<le> 2 \<longleftrightarrow> w \<in> {ALG_MODEL_GOLD1000, ALG_MODEL_GOLD2000, ALG_MODEL_GOLD2000MC}"
proof -
  have w: "w = of_nat (unat w)" by simp
  have "unat w \<le> 2 \<longleftrightarrow> unat w = 0 \<or> unat w = 1 \<or> unat w = 2" by arith
  also have "\<dots> \<longleftrightarrow> w = 0 \<or> w = 1 \<or> w = 2"
  proof
    assume "unat w = 0 \<or> unat w = 1 \<or> unat w = 2"
    then show "w = 0 \<or> w = 1 \<or> w = 2"
    proof (elim disjE)
      assume "unat w = 0" with w show ?thesis by simp
    next
      assume "unat w = 1" with w show ?thesis by simp
    next
      assume "unat w = 2" with w show ?thesis by simp
    qed
  next
    assume "w = 0 \<or> w = 1 \<or> w = 2"
    then show "unat w = 0 \<or> unat w = 1 \<or> unat w = 2" by auto
  qed
  finally show ?thesis by auto
qed

subsection \<open>What the registry loops and ControlRegReset leave alone\<close>

lemma ControlRegWrite_data_reads:
  "port_reads ALG_REG_FM1_DATA (io_trace (snd (ControlRegWrite r v a m))) =
     port_reads ALG_REG_FM1_DATA (io_trace m)"
proof (cases "operative a")
  case True
  from ControlRegWrite_on[OF True, of r v m] obtain w st where
    "io_trace (snd (ControlRegWrite r v a m)) =
           io_trace m @ PortWrite ALG_REG_FM1_ADDR ALG_BANK_CONTROL # w
             @ [PortWrite ALG_REG_FM1_ADDR r, PortWrite ALG_REG_FM1_DATA v] @ st
             @ [PortWrite ALG_REG_FM1_ADDR ALG_BANK_OPL3]" "is_status_poll w" "settle_ok r st"
    by blast
  then show ?thesis by simp
next
  case False
  then show ?thesis by (simp add: ControlRegWrite_off)
qed

lemma ControlRegWrite_model: "m_CardModel (fst (ControlRegWrite r v a m)) = m_CardModel a"
  by (simp add: ControlRegWrite_fst)

lemma write_defaults_frame:
  "(cache_ok a \<longrightarrow> cache_ok (fst (write_defaults es a m)))
   \<and> m_CardModel (fst (write_defaults es a m)) = m_CardModel a
   \<and> port_reads ALG_REG_FM1_DATA (io_trace (snd (write_defaults es a m))) =
       port_reads ALG_REG_FM1_DATA (io_trace m)"
proof (induction es arbitrary: a m)
  case Nil
  then show ?case by simp
next
  case (Cons e es)
  obtain a' m' where cw: "ControlRegWrite (RegisterIndex e) (RegisterSetting e) a m = (a', m')"
    by (cases "ControlRegWrite (RegisterIndex e) (RegisterSetting e) a m")
  have "cache_ok a \<longrightarrow> cache_ok a'" "m_CardModel a' = m_CardModel a"
    "port_reads ALG_REG_FM1_DATA (io_trace m') = port_reads ALG_REG_FM1_DATA (io_trace m)"
    using ControlRegWrite_cache_ok[of a "RegisterIndex e" "RegisterSetting e" m]
      ControlRegWrite_model[of "RegisterIndex e" "RegisterSetting e" a m]
      ControlRegWrite_data_reads[of "RegisterIndex e" "RegisterSetting e" a m] cw
    by simp_all
  with Cons.IH[of a' m'] show ?case by (simp add: cw)
qed

lemma read_saved_frame:
  "(cache_ok a \<longrightarrow> cache_ok (fst (snd (read_saved env es st a m))))
   \<and> m_CardModel (fst (snd (read_saved env es st a m))) = m_CardModel a
   \<and> port_reads ALG_REG_FM1_DATA (io_trace (snd (snd (read_saved env es st a m)))) =
       port_reads ALG_REG_FM1_DATA (io_trace m)"
proof (induction es arbitrary: st a m)
  case Nil
  then show ?case by simp
next
  case (Cons e es)
  obtain qs len dat where q: "QueryValueKey env (KeyName e) = (qs, len, dat)"
    by (cases "QueryValueKey env (KeyName e)")
  have step: "\<exists>a' m'. read_saved env (e # es) st a m = read_saved env es qs a' m'
      \<and> (cache_ok a \<longrightarrow> cache_ok a') \<and> m_CardModel a' = m_CardModel a
      \<and> port_reads ALG_REG_FM1_DATA (io_trace m') = port_reads ALG_REG_FM1_DATA (io_trace m)"
  proof (cases "NT_SUCCESS qs \<and> len \<noteq> 4")
    case True
    then show ?thesis using q by auto
  next
    case False
    define v where "v = (if NT_SUCCESS qs then ucast dat else RegisterSetting e)"
    obtain a' m' where cw: "ControlRegWrite (RegisterIndex e) v a m = (a', m')"
      by (cases "ControlRegWrite (RegisterIndex e) v a m")
    have "read_saved env (e # es) st a m = read_saved env es qs a' m'"
      using False q cw by (auto simp: v_def)
    moreover have "cache_ok a \<longrightarrow> cache_ok a'" "m_CardModel a' = m_CardModel a"
      "port_reads ALG_REG_FM1_DATA (io_trace m') = port_reads ALG_REG_FM1_DATA (io_trace m)"
      using ControlRegWrite_cache_ok[of a "RegisterIndex e" v m]
        ControlRegWrite_model[of "RegisterIndex e" v a m]
        ControlRegWrite_data_reads[of "RegisterIndex e" v a m] cw
      by simp_all
    ultimately show ?thesis by blast
  qed
  then obtain a' m' where s: "read_saved env (e # es) st a m = read_saved env es qs a' m'"
      "cache_ok a \<longrightarrow> cache_ok a'" "m_CardModel a' = m_CardModel a"
      "port_reads ALG_REG_FM1_DATA (io_trace m') = port_reads ALG_REG_FM1_DATA (io_trace m)"
    by blast
  with Cons.IH[where st = qs and a = a' and m = m'] show ?case by simp
qed

lemma RestoreMixerSettingsFromRegistry_frame:
  "(cache_ok a \<longrightarrow> cache_ok (fst (snd (RestoreMixerSettingsFromRegistry env a m))))
   \<and> m_CardModel (fst (snd (RestoreMixerSettingsFromRegistry env a m))) = m_CardModel a
   \<and> port_reads ALG_REG_FM1_DATA (io_trace (snd (snd (RestoreMixerSettingsFromRegistry env a m)))) =
       port_reads ALG_REG_FM1_DATA (io_trace m)"
  using write_defaults_frame[of a DefaultMixerSettings m]
    read_saved_frame[of a env DefaultMixerSettings "NewSubKey_status env" m]
  by (simp add: RestoreMixerSettingsFromRegistry_def split_beta)

lemma ControlRegReset_eq:
  "\<exists>a2 m2. ControlRegReset env a m = ControlRegWrite CTRL_REG_RESERVED 0x00 a2 m2
     \<and> (cache_ok a \<longrightarrow> cache_ok a2) \<and> m_CardModel a2 = m_CardModel a
     \<and> port_reads ALG_REG_FM1_DATA (io_trace m2) = port_reads ALG_REG_FM1_DATA (io_trace m)"
proof -
  obtain st a1 m1 where r: "RestoreMixerSettingsFromRegistry env a m = (st, a1, m1)"
    by (cases "RestoreMixerSettingsFromRegistry env a m")
  have f1: "cache_ok a \<longrightarrow> cache_ok a1" "m_CardModel a1 = m_CardModel a"
    "port_reads ALG_REG_FM1_DATA (io_trace m1) = port_reads ALG_REG_FM1_DATA (io_trace m)"
    using RestoreMixerSettingsFromRegistry_frame[of a env m] r by simp_all
  show ?thesis
  proof (cases "NT_SUCCESS st")
    case True
    then show ?thesis using r f1 by (auto simp: ControlRegReset_def)
  next
    case False
    obtain a2 m2 where w: "write_defaults DefaultMixerSettings a1 m1 = (a2, m2)"
      by (cases "write_defaults DefaultMixerSettings a1 m1")
    have "ControlRegReset env a m = ControlRegWrite CTRL_REG_RESERVED 0x00 a2 m2"
      using False r w by (simp add: ControlRegReset_def)
    moreover have "cache_ok a \<longrightarrow> cache_ok a2" "m_CardModel a2 = m_CardModel a"
      "port_reads ALG_REG_FM1_DATA (io_trace m2) = port_reads ALG_REG_FM1_DATA (io_trace m)"
      using write_defaults_frame[of a1 DefaultMixerSettings m1] w f1 by simp_all
    ultimately show ?thesis by blast
  qed
qed

lemma ControlRegReset_frame:
  "m_CardModel (fst (ControlRegReset env a m)) = m_CardModel a
   \<and> port_reads ALG_REG_FM1_DATA (io_trace (snd (ControlRegReset env a m))) =
       port_reads ALG_REG_FM1_DATA (io_trace m)"
proof -
  from ControlRegReset_eq[of env a m] obtain a2 m2 where
    e: "ControlRegReset env a m = ControlRegWrite CTRL_REG_RESERVED 0x00 a2 m2"
    and f: "m_CardModel a2 = m_CardModel a"
      "port_reads ALG_REG_FM1_DATA (io_trace m2) = port_reads ALG_REG_FM1_DATA (io_trace m)"
    by blast
  show ?thesis
    using f ControlRegWrite_model[of CTRL_REG_RESERVED 0 a2 m2]
      ControlRegWrite_data_reads[of CTRL_REG_RESERVED 0 a2 m2]
    by (simp add: e)
qed

subsection \<open>The identity probe of Init\<close>

lemma WaitForReady_data_reads:
  "port_reads ALG_REG_FM1_DATA (io_trace (snd (WaitForReady m))) =
     port_reads ALG_REG_FM1_DATA (io_trace m)"
  using WaitForReady_poll_snd[of m] by auto

lemma Init_probed:
  assumes "1 \<le> NumberOfPorts env" and "1 \<le> NumberOfInterrupts env" and "Init_ready m"
  shows "fst (Init env a m) =
           (if unat (Init_idByte m AND CTRL_ID_MODEL_MASK) > unat ALG_MODEL_GOLD2000MC
            then STATUS_DEVICE_DOES_NOT_EXIST
            else if NT_SUCCESS (PcNewInterruptSync_status env) \<and> PcNewInterruptSync_object env
            then (if NT_SUCCESS (RegisterServiceRoutine_status env)
                  then Connect_status env else RegisterServiceRoutine_status env)
            else PcNewInterruptSync_status env)"
    and "m_CardModel (fst (snd (Init env a m))) = Init_idByte m AND CTRL_ID_MODEL_MASK"
    and "port_reads ALG_REG_FM1_DATA (io_trace (snd (snd (Init env a m)))) =
           port_reads ALG_REG_FM1_DATA (io_trace m) @ [Init_idByte m]"
proof -
  define m1 where "m1 = WRITE_PORT_UCHAR ALG_REG_FM1_ADDR ALG_BANK_CONTROL m"
  define m2 where "m2 = snd (WaitForReady m1)"
  have wf: "WaitForReady m1 = (True, m2)"
    using assms(3) by (simp add: Init_ready_def m1_def m2_def prod_eq_iff)
  have r2: "port_reads ALG_REG_FM1_DATA (io_trace m2) = port_reads ALG_REG_FM1_DATA (io_trace m)"
    using WaitForReady_data_reads[of m1] by (simp add: m2_def m1_def WRITE_PORT_UCHAR_def)
  define idb where "idb = Init_idByte m"
  define m5 where "m5 = WRITE_PORT_UCHAR ALG_REG_FM1_ADDR ALG_BANK_OPL3
      (snd (READ_PORT_UCHAR ALG_REG_FM1_DATA (WRITE_PORT_UCHAR ALG_REG_FM1_ADDR CTRL_REG_CONTROL_ID m2)))"
  have idb: "fst (READ_PORT_UCHAR ALG_REG_FM1_DATA (WRITE_PORT_UCHAR ALG_REG_FM1_ADDR CTRL_REG_CONTROL_ID m2)) = idb"
    by (simp add: idb_def Init_idByte_def m2_def m1_def)
  have r5: "port_reads ALG_REG_FM1_DATA (io_trace m5) = port_reads ALG_REG_FM1_DATA (io_trace m) @ [idb]"
    using r2 idb by (simp add: m5_def READ_PORT_UCHAR_def WRITE_PORT_UCHAR_def Let_def)
  note rs = ControlRegReset_frame[THEN conjunct1] ControlRegReset_frame[THEN conjunct2]
  have all: "fst (Init env a m) =
           (if unat (idb AND CTRL_ID_MODEL_MASK) > unat ALG_MODEL_GOLD2000MC
            then STATUS_DEVICE_DOES_NOT_EXIST
            else if NT_SUCCESS (PcNewInterruptSync_status env) \<and> PcNewInterruptSync_object env
            then (if NT_SUCCESS (RegisterServiceRoutine_status env)
                  then Connect_status env else RegisterServiceRoutine_status env)
            else PcNewInterruptSync_status env)
        \<and> m_CardModel (fst (snd (Init env a m))) = idb AND CTRL_ID_MODEL_MASK
        \<and> port_reads ALG_REG_FM1_DATA (io_trace (snd (snd (Init env a m)))) =
           port_reads ALG_REG_FM1_DATA (io_trace m) @ [idb]"
    using assms(1,2) r5 idb
    by (simp add: Init_def Let_def split_beta wf[unfolded m1_def, simplified] m1_def
        m5_def[symmetric, simplified] rs[simplified])
  then show "fst (Init env a m) =
           (if unat (Init_idByte m AND CTRL_ID_MODEL_MASK) > unat ALG_MODEL_GOLD2000MC
            then STATUS_DEVICE_DOES_NOT_EXIST
            else if NT_SUCCESS (PcNewInterruptSync_status env) \<and> PcNewInterruptSync_object env
            then (if NT_SUCCESS (RegisterServiceRoutine_status env)
                  then Connect_status env else RegisterServiceRoutine_status env)
            else PcNewInterruptSync_status env)"
    and "m_CardModel (fst (snd (Init env a m))) = Init_idByte m AND CTRL_ID_MODEL_MASK"
    and "port_reads ALG_REG_FM1_DATA (io_trace (snd (snd (Init env a m)))) =
           port_reads ALG_REG_FM1_DATA (io_trace m) @ [Init_idByte m]"
    unfolding idb_def by blast+
qed


lemma WaitForReady_idle:
  assumes "next_input ALG_REG_FM1_ADDR m AND ALG_STATUS_BUSY_MASK = 0"
  shows "WaitForReady m = (True, snd (READ_PORT_UCHAR ALG_REG_FM1_ADDR m))"
  using assms
  by (simp add: WaitForReady_def WaitForReady_loop.simps[of 1000 m] READ_PORT_UCHAR_def
      next_input_def Let_def)

lemma sync_status_ok:
  "NT_SUCCESS (if NT_SUCCESS (PcNewInterruptSync_status env) \<and> PcNewInterruptSync_object env
            then (if NT_SUCCESS (RegisterServiceRoutine_status env)
                  then Connect_status env else RegisterServiceRoutine_status env)
            else PcNewInterruptSync_status env) = sync_ok env"
  by (auto simp: sync_ok_def)

lemma Init_probe_quiet:
  "Init_ready (machine_with (\<lambda>n p. if p = ALG_REG_FM1_DATA then b else 0))"
  "Init_idByte (machine_with (\<lambda>n p. if p = ALG_REG_FM1_DATA then b else 0)) = b"
proof -
  let ?m = "machine_with (\<lambda>n p. if p = ALG_REG_FM1_DATA then b else 0)"
  have w: "WaitForReady (WRITE_PORT_UCHAR ALG_REG_FM1_ADDR ALG_BANK_CONTROL ?m) =
      (True, snd (READ_PORT_UCHAR ALG_REG_FM1_ADDR (WRITE_PORT_UCHAR ALG_REG_FM1_ADDR ALG_BANK_CONTROL ?m)))"
    by (rule WaitForReady_idle) (simp add: next_input_def machine_with_def WRITE_PORT_UCHAR_def)
  show "Init_ready ?m" using w by (simp add: Init_ready_def)
  show "Init_idByte ?m = b"
    using w
    by (simp add: Init_idByte_def)
       (simp add: machine_with_def READ_PORT_UCHAR_def WRITE_PORT_UCHAR_def Let_def)
qed

subsection \<open>Reads pinned to the hardware\<close>

lemma WaitForReady_loop_oracle:
  "0 < n \<Longrightarrow> \<exists>vs. io_trace (snd (WaitForReady_loop n m)) =
          io_trace m @ map (PortRead ALG_REG_FM1_ADDR) vs
      \<and> vs \<noteq> [] \<and> length vs \<le> n
      \<and> port_input (snd (WaitForReady_loop n m)) = port_input m
      \<and> reads_done (snd (WaitForReady_loop n m)) = reads_done m + length vs
      \<and> (\<forall>j < length vs. vs ! j = port_input m (reads_done m + j) ALG_REG_FM1_ADDR)
      \<and> (\<forall>j < length vs - 1. vs ! j AND ALG_STATUS_BUSY_MASK \<noteq> 0)
      \<and> (vs ! (length vs - 1) AND ALG_STATUS_BUSY_MASK \<noteq> 0 \<longrightarrow> length vs = n)"
proof (induction n m rule: WaitForReady_loop.induct)
  case (1 timeout m)
  obtain status m' where rd: "READ_PORT_UCHAR ALG_REG_FM1_ADDR m = (status, m')"
    by (cases "READ_PORT_UCHAR ALG_REG_FM1_ADDR m")
  then have tr: "io_trace m' = io_trace m @ [PortRead ALG_REG_FM1_ADDR status]"
    and st: "status = port_input m (reads_done m) ALG_REG_FM1_ADDR"
    and pi: "port_input m' = port_input m" and rc: "reads_done m' = Suc (reads_done m)"
    by (auto simp: READ_PORT_UCHAR_def Let_def)
  show ?case
  proof (cases "status AND ALG_STATUS_BUSY_MASK \<noteq> 0 \<and> timeout - 1 \<noteq> 0")
    case True
    then have pos: "0 < timeout - 1" by simp
    from True have b: "status AND ALG_STATUS_BUSY_MASK \<noteq> 0" and t: "timeout - 1 \<noteq> 0" by auto
    define R where "R = WaitForReady_loop (timeout - 1) m'"
    from "1.IH"[OF rd[symmetric] b t pos]
    obtain vs where c: "io_trace (snd R) = io_trace m' @ map (PortRead ALG_REG_FM1_ADDR) vs
      \<and> vs \<noteq> [] \<and> length vs \<le> timeout - 1
      \<and> port_input (snd R) = port_input m'
      \<and> reads_done (snd R) = reads_done m' + length vs
      \<and> (\<forall>j < length vs. vs ! j = port_input m' (reads_done m' + j) ALG_REG_FM1_ADDR)
      \<and> (\<forall>j < length vs - 1. vs ! j AND ALG_STATUS_BUSY_MASK \<noteq> 0)
      \<and> (vs ! (length vs - 1) AND ALG_STATUS_BUSY_MASK \<noteq> 0 \<longrightarrow> length vs = timeout - 1)"
      unfolding R_def by (elim exE)
    have eq: "WaitForReady_loop timeout m = R"
      unfolding R_def using True rd by (subst WaitForReady_loop.simps) simp
    let ?ws = "status # vs"
    have n1: "\<forall>j < length ?ws. ?ws ! j = port_input m (reads_done m + j) ALG_REG_FM1_ADDR"
    proof (intro allI impI)
      fix j assume "j < length ?ws"
      then show "?ws ! j = port_input m (reads_done m + j) ALG_REG_FM1_ADDR"
        using c st pi rc by (cases j) auto
    qed
    have n2: "\<forall>j < length ?ws - 1. ?ws ! j AND ALG_STATUS_BUSY_MASK \<noteq> 0"
    proof (intro allI impI)
      fix j assume "j < length ?ws - 1"
      then show "?ws ! j AND ALG_STATUS_BUSY_MASK \<noteq> 0"
        using c b by (cases j) auto
    qed
    have n3: "?ws ! (length ?ws - 1) AND ALG_STATUS_BUSY_MASK \<noteq> 0 \<longrightarrow> length ?ws = timeout"
    proof -
      have "?ws ! (length ?ws - 1) = vs ! (length vs - 1)"
        using c by (cases vs) auto
      then show ?thesis using c pos by auto
    qed
    have "io_trace (snd R) = io_trace m @ map (PortRead ALG_REG_FM1_ADDR) ?ws
      \<and> ?ws \<noteq> [] \<and> length ?ws \<le> timeout
      \<and> port_input (snd R) = port_input m
      \<and> reads_done (snd R) = reads_done m + length ?ws"
      using c tr pi rc pos by auto
    with n1 n2 n3 show ?thesis unfolding eq by blast
  next
    case False
    have eq: "WaitForReady_loop timeout m =
        (if status AND ALG_STATUS_BUSY_MASK \<noteq> 0 then (timeout - 1, m') else (timeout, m'))"
      using False rd by (subst WaitForReady_loop.simps) auto
    show ?thesis
      apply (rule exI[of _ "[status]"])
      using False tr st pi rc "1.prems" by (auto simp: eq)
  qed
qed

lemma WaitForReady_oracle:
  "\<exists>w. io_trace (snd (WaitForReady m)) = io_trace m @ w
      \<and> poll_from (port_input m) (reads_done m) w
      \<and> port_input (snd (WaitForReady m)) = port_input m
      \<and> reads_done (snd (WaitForReady m)) = reads_done m + length w"
proof -
  have "(0::nat) < 1000" by simp
  from WaitForReady_loop_oracle[OF this, of m]
  obtain vs where c: "io_trace (snd (WaitForReady_loop 1000 m)) =
          io_trace m @ map (PortRead ALG_REG_FM1_ADDR) vs
      \<and> vs \<noteq> [] \<and> length vs \<le> 1000
      \<and> port_input (snd (WaitForReady_loop 1000 m)) = port_input m
      \<and> reads_done (snd (WaitForReady_loop 1000 m)) = reads_done m + length vs
      \<and> (\<forall>j < length vs. vs ! j = port_input m (reads_done m + j) ALG_REG_FM1_ADDR)
      \<and> (\<forall>j < length vs - 1. vs ! j AND ALG_STATUS_BUSY_MASK \<noteq> 0)
      \<and> (vs ! (length vs - 1) AND ALG_STATUS_BUSY_MASK \<noteq> 0 \<longrightarrow> length vs = 1000)"
    by (elim exE)
  let ?w = "map (PortRead ALG_REG_FM1_ADDR) vs"
  have sn: "snd (WaitForReady m) = snd (WaitForReady_loop 1000 m)"
    by (simp add: WaitForReady_def split_beta)
  have nth: "\<forall>j < length vs. vs ! j = port_input m (reads_done m + j) ALG_REG_FM1_ADDR"
    using c by blast
  have p1: "is_status_poll ?w"
    using c by (simp add: is_status_poll_def status_reads_map[simplified])
  have p2: "?w = map (\<lambda>j. PortRead ALG_REG_FM1_ADDR (port_input m (reads_done m + j) ALG_REG_FM1_ADDR))
                 [0..<length ?w]"
  proof (rule nth_equalityI)
    show "length ?w = length (map (\<lambda>j. PortRead ALG_REG_FM1_ADDR
              (port_input m (reads_done m + j) ALG_REG_FM1_ADDR)) [0..<length ?w])"
      by simp
  next
    fix i assume "i < length ?w"
    then have i: "i < length vs" by simp
    with nth have "vs ! i = port_input m (reads_done m + i) ALG_REG_FM1_ADDR" by blast
    with i show "?w ! i = map (\<lambda>j. PortRead ALG_REG_FM1_ADDR
              (port_input m (reads_done m + j) ALG_REG_FM1_ADDR)) [0..<length ?w] ! i"
      by simp
  qed
  have p3: "list_all (\<lambda>j. port_input m (reads_done m + j) ALG_REG_FM1_ADDR AND ALG_STATUS_BUSY_MASK \<noteq> 0)
                 [0..<length ?w - 1]"
    using c nth by (auto simp: list_all_iff)
  have p4: "port_input m (reads_done m + (length ?w - 1)) ALG_REG_FM1_ADDR AND ALG_STATUS_BUSY_MASK \<noteq> 0
              \<longrightarrow> length ?w = 1000"
  proof -
    have "length vs - 1 < length vs" using c by (cases vs) auto
    with nth have "vs ! (length vs - 1) = port_input m (reads_done m + (length vs - 1)) ALG_REG_FM1_ADDR"
      by blast
    with c show ?thesis by auto
  qed
  have "poll_from (port_input m) (reads_done m) ?w"
    unfolding poll_from_def using p1 p2 p3 p4 by blast
  with c show ?thesis unfolding sn by auto
qed

lemma RestoreFromEEPROM_loop_oracle:
  "cache_ok a \<Longrightarrow> reg \<le> CTRL_REG_MAX \<Longrightarrow>
     port_input (snd (RestoreFromEEPROM_loop reg a m)) = port_input m \<and>
     reads_done (snd (RestoreFromEEPROM_loop reg a m)) = reads_done m + (CTRL_REG_MAX - reg) \<and>
     (\<forall>k. reg \<le> k \<and> k < CTRL_REG_MAX \<longrightarrow>
        m_ControlRegs (fst (RestoreFromEEPROM_loop reg a m)) ! k =
          port_input m (reads_done m + (k - reg)) ALG_REG_FM1_DATA)"
proof (induction reg a m rule: RestoreFromEEPROM_loop.induct)
  case (1 reg a m)
  show ?case
  proof (cases "reg < CTRL_REG_MAX")
    case True
    define m1 where "m1 = WRITE_PORT_UCHAR ALG_REG_FM1_ADDR (of_nat reg) m"
    obtain v m2 where rd: "READ_PORT_UCHAR ALG_REG_FM1_DATA m1 = (v, m2)"
      by (cases "READ_PORT_UCHAR ALG_REG_FM1_DATA m1")
    define a1 where "a1 = a\<lparr>m_ControlRegs := (m_ControlRegs a)[reg := v]\<rparr>"
    define R where "R = RestoreFromEEPROM_loop (Suc reg) a1 m2"
    have step: "RestoreFromEEPROM_loop reg a m = R"
      using True rd unfolding R_def a1_def m1_def
      by (subst RestoreFromEEPROM_loop.simps) (simp add: Let_def)
    have v: "v = port_input m (reads_done m) ALG_REG_FM1_DATA"
      and pi: "port_input m2 = port_input m" and rc: "reads_done m2 = Suc (reads_done m)"
      using rd by (auto simp: m1_def READ_PORT_UCHAR_def WRITE_PORT_UCHAR_def Let_def)
    have c1: "cache_ok a1" using "1.prems"(1) by (simp add: a1_def cache_ok_def)
    have len: "reg < length (m_ControlRegs a)" using True "1.prems"(1) by (simp add: cache_ok_def)
    have sr: "Suc reg \<le> CTRL_REG_MAX" using True by simp
    have ih: "port_input (snd R) = port_input m2 \<and>
        reads_done (snd R) = reads_done m2 + (CTRL_REG_MAX - Suc reg) \<and>
        (\<forall>k. Suc reg \<le> k \<and> k < CTRL_REG_MAX \<longrightarrow>
           m_ControlRegs (fst R) ! k = port_input m2 (reads_done m2 + (k - Suc reg)) ALG_REG_FM1_DATA)"
      unfolding R_def
      using "1.IH"[OF True m1_def rd[symmetric] refl, folded a1_def] c1 True
      by simp
    have tk: "take (Suc reg) (m_ControlRegs (fst R)) = take (Suc reg) (m_ControlRegs a1)"
      using RestoreFromEEPROM_loop_readback[OF c1 sr, of m2] unfolding R_def by blast
    have nth: "m_ControlRegs (fst R) ! reg = v"
    proof -
      have "m_ControlRegs (fst R) ! reg = take (Suc reg) (m_ControlRegs (fst R)) ! reg" by simp
      also have "\<dots> = take (Suc reg) (m_ControlRegs a1) ! reg" by (simp only: tk)
      also have "\<dots> = v" using len by (simp add: a1_def)
      finally show ?thesis .
    qed
    have all: "\<forall>k. reg \<le> k \<and> k < CTRL_REG_MAX \<longrightarrow>
        m_ControlRegs (fst R) ! k = port_input m (reads_done m + (k - reg)) ALG_REG_FM1_DATA"
    proof (intro allI impI)
      fix k assume k: "reg \<le> k \<and> k < CTRL_REG_MAX"
      show "m_ControlRegs (fst R) ! k = port_input m (reads_done m + (k - reg)) ALG_REG_FM1_DATA"
      proof (cases "k = reg")
        case True
        then show ?thesis using nth v by simp
      next
        case False
        with k have k': "Suc reg \<le> k \<and> k < CTRL_REG_MAX" by simp
        have "reads_done m2 + (k - Suc reg) = reads_done m + (k - reg)"
          using k' rc by arith
        with ih k' pi show ?thesis by metis
      qed
    qed
    have "reads_done (snd R) = reads_done m + (CTRL_REG_MAX - reg)"
      using ih rc True by simp
    with ih pi all show ?thesis unfolding step by simp
  next
    case False
    then have "reg = CTRL_REG_MAX" using "1.prems"(2) by simp
    then show ?thesis
      by (subst (1 2 3) RestoreFromEEPROM_loop.simps) auto
  qed
qed

lemma poll_from_is_poll: "poll_from f n w \<Longrightarrow> is_status_poll w"
  by (simp add: poll_from_def)

lemma poll_from_idle:
  assumes "poll_from f n w" and "\<forall>j. f (n + j) ALG_REG_FM1_ADDR AND ALG_STATUS_BUSY_MASK = 0"
  shows "length w = 1"
proof -
  from assms(1) have ne: "w \<noteq> []"
    and la: "list_all (\<lambda>j. f (n + j) ALG_REG_FM1_ADDR AND ALG_STATUS_BUSY_MASK \<noteq> 0) [0..<length w - 1]"
    by (simp_all add: poll_from_def is_status_poll_def)
  have "length w - 1 = 0"
  proof (rule ccontr)
    assume "length w - 1 \<noteq> 0"
    then have "0 \<in> set [0..<length w - 1]" by simp
    with la have "f (n + 0) ALG_REG_FM1_ADDR AND ALG_STATUS_BUSY_MASK \<noteq> 0"
      unfolding list_all_iff by blast
    with assms(2) show False by blast
  qed
  with ne show ?thesis by (cases w) auto
qed

section \<open>The claims\<close>

text \<open>
  Claim C1.  For every register index \<open>i\<close> of the shadow cache (0x00 to 0x18) and
  every value \<open>v\<close>, \<^verbatim>\<open>ControlRegWrite(i, v)\<close> followed by \<^verbatim>\<open>ControlRegRead(i)\<close>
  returns \<open>v\<close>.  This holds in every power state: the adapter \<open>a\<close> is arbitrary, and
  when the power state is below operative level the machine is left untouched
  while the cache is still updated.
\<close>
theorem write_then_read_returns_value:
  assumes "cache_ok a" and "unat i < CTRL_REG_MAX"
  shows "ControlRegRead i (fst (ControlRegWrite i v a m)) = v
       \<and> (\<not> operative a \<longrightarrow> snd (ControlRegWrite i v a m) = m)"
  using assms by (simp add: ControlRegWrite_fst ControlRegWrite_off ControlRegRead_def cache_ok_def)

theorem write_then_read_returns_value_witness:
  "cache_ok (adapter_in PowerDeviceD3 None None) \<and> unat (0x06 :: BYTE) < CTRL_REG_MAX
   \<and> \<not> operative (adapter_in PowerDeviceD3 None None)
   \<and> ControlRegRead 0x06
        (fst (ControlRegWrite 0x06 0xF9 (adapter_in PowerDeviceD3 None None) (machine_with (\<lambda>n p. 0)))) = 0xF9
   \<and> snd (ControlRegWrite 0x06 0xF9 (adapter_in PowerDeviceD3 None None) (machine_with (\<lambda>n p. 0)))
       = machine_with (\<lambda>n p. 0)"
  using write_then_read_returns_value
    [of "adapter_in PowerDeviceD3 None None" "0x06" "0xF9" "machine_with (\<lambda>n p. 0)"]
  by (simp add: cache_ok_def adapter_in_def operative_def)

text \<open>
  Claim C2.  The values a call of \<^verbatim>\<open>ControlRegWrite\<close> writes to the bank-select
  port base+2 are either none (power-gated path) or \<^verbatim>\<open>0xFF\<close>, the register index,
  \<^verbatim>\<open>0xFE\<close>; so the last value written to that port by the call, if any, is the
  OPL3-bank sentinel \<^verbatim>\<open>0xFE\<close>, and in the operative case that write is the last
  event of the call.  The machine is arbitrary, so this covers the path on which
  the busy-poll runs out of its budget.
\<close>
theorem ControlRegWrite_leaves_OPL3_bank:
  "\<exists>ws. port_writes ALG_REG_FM1_ADDR (io_trace (snd (ControlRegWrite r v a m))) =
          port_writes ALG_REG_FM1_ADDR (io_trace m) @ ws
      \<and> ws = (if operative a then [ALG_BANK_CONTROL, r, ALG_BANK_OPL3] else [])
      \<and> (ws \<noteq> [] \<longrightarrow> last ws = ALG_BANK_OPL3)
      \<and> (operative a \<longrightarrow>
           last (io_trace (snd (ControlRegWrite r v a m))) = PortWrite ALG_REG_FM1_ADDR ALG_BANK_OPL3)"
proof (cases "operative a")
  case True
  from ControlRegWrite_on[OF True, of r v m] obtain w st where
    "io_trace (snd (ControlRegWrite r v a m)) =
           io_trace m @ PortWrite ALG_REG_FM1_ADDR ALG_BANK_CONTROL # w
             @ [PortWrite ALG_REG_FM1_ADDR r, PortWrite ALG_REG_FM1_DATA v] @ st
             @ [PortWrite ALG_REG_FM1_ADDR ALG_BANK_OPL3]" "is_status_poll w" "settle_ok r st"
    by blast
  with True show ?thesis by simp
next
  case False
  then show ?thesis by (simp add: ControlRegWrite_off)
qed


theorem ControlRegWrite_leaves_OPL3_bank_witness:
  "operative (adapter_in PowerDeviceD0 None None)
   \<and> port_writes ALG_REG_FM1_ADDR
        (io_trace (snd (ControlRegWrite 0x06 0xF9 (adapter_in PowerDeviceD0 None None)
           (machine_with (\<lambda>n p. 0xFF))))) = [ALG_BANK_CONTROL, 0x06, ALG_BANK_OPL3]
   \<and> last (io_trace (snd (ControlRegWrite 0x06 0xF9 (adapter_in PowerDeviceD0 None None)
           (machine_with (\<lambda>n p. 0xFF))))) = PortWrite ALG_REG_FM1_ADDR ALG_BANK_OPL3"
proof -
  let ?a = "adapter_in PowerDeviceD0 None None"
  have op: "operative ?a" by (simp add: operative_def adapter_in_def)
  show ?thesis
    using ControlRegWrite_leaves_OPL3_bank[of "0x06" "0xF9" ?a "machine_with (\<lambda>n p. 0xFF)"] op
    by (simp add: machine_with_def)
qed

text \<open>
  Claim C3.  When the interrupt-status byte read from base+2 has the sampling bit
  D1 clear (asserted, active low), one run of the interrupt service routine
  returns \<^verbatim>\<open>STATUS_SUCCESS\<close> and its events are: bank select, status read, bank
  restore, exactly one read of the MMA status register (base+4), then one call of
  the wave miniport if one is registered (whatever the MMA status holds), then one
  call of the MIDI miniport if the RRQ flag is set in that MMA status and one is
  registered, then the OPL3 status read if the FM bit is clear too.  The events are those of
  the routine itself; a miniport call is one event.
\<close>
theorem ISR_sampling_dispatch:
  assumes "next_input ALG_REG_FM1_ADDR m AND ALG_STATUS_SMP_IRQ = 0"
  shows "fst (InterruptServiceRoutine that m) = STATUS_SUCCESS
       \<and> io_trace (snd (InterruptServiceRoutine that m)) =
           io_trace m
           @ [PortWrite ALG_REG_FM1_ADDR ALG_BANK_CONTROL,
              PortRead ALG_REG_FM1_ADDR (next_input ALG_REG_FM1_ADDR m),
              PortWrite ALG_REG_FM1_ADDR ALG_BANK_OPL3,
              PortRead ALG_REG_MMA0_ADDR (second_input ALG_REG_MMA0_ADDR m)]
           @ (case m_pWaveMiniport that of Some w \<Rightarrow> [WaveISR w] | None \<Rightarrow> [])
           @ (if second_input ALG_REG_MMA0_ADDR m AND MMA_STATUS_RRQ \<noteq> 0
              then (case m_pMidiMiniport that of Some u \<Rightarrow> [MidiISR u] | None \<Rightarrow> [])
              else [])
           @ (if next_input ALG_REG_FM1_ADDR m AND ALG_STATUS_FM_IRQ = 0
              then [PortRead ALG_REG_FM0_ADDR (port_input m (Suc (Suc (reads_done m))) ALG_REG_FM0_ADDR)]
              else [])
       \<and> port_reads ALG_REG_MMA0_ADDR (io_trace (snd (InterruptServiceRoutine that m))) =
           port_reads ALG_REG_MMA0_ADDR (io_trace m) @ [second_input ALG_REG_MMA0_ADDR m]
       \<and> wave_calls (io_trace (snd (InterruptServiceRoutine that m))) =
           wave_calls (io_trace m) @ (case m_pWaveMiniport that of Some w \<Rightarrow> [w] | None \<Rightarrow> [])
       \<and> midi_calls (io_trace (snd (InterruptServiceRoutine that m))) =
           midi_calls (io_trace m)
           @ (if second_input ALG_REG_MMA0_ADDR m AND MMA_STATUS_RRQ \<noteq> 0
              then (case m_pMidiMiniport that of Some u \<Rightarrow> [u] | None \<Rightarrow> [])
              else [])"
proof -
  have nm: "next_input ALG_REG_FM1_ADDR m AND 0x0F \<noteq> 0x0F"
  proof
    assume "next_input ALG_REG_FM1_ADDR m AND 0x0F = 0x0F"
    then have "(next_input ALG_REG_FM1_ADDR m AND 0x0F) AND 0x02 = 0x0F AND 0x02" by simp
    then have "next_input ALG_REG_FM1_ADDR m AND 0x02 = 0x02"
      by (simp add: and.assoc)
    with assms show False by simp
  qed
  show ?thesis
    using assms nm
    by (simp add: InterruptServiceRoutine_def READ_PORT_UCHAR_def WRITE_PORT_UCHAR_def
        ServiceWaveISR_def ServiceMidiISR_def next_input_def second_input_def Let_def
        split: option.split)
qed


theorem ISR_sampling_dispatch_witness:
  "next_input ALG_REG_FM1_ADDR (machine_with (\<lambda>n p. if p = ALG_REG_FM1_ADDR then 0x0D else 0x04))
     AND ALG_STATUS_SMP_IRQ = 0
   \<and> fst (InterruptServiceRoutine (adapter_in PowerDeviceD0 (Some 1) None)
        (machine_with (\<lambda>n p. if p = ALG_REG_FM1_ADDR then 0x0D else 0x04))) = STATUS_SUCCESS
   \<and> io_trace (snd (InterruptServiceRoutine (adapter_in PowerDeviceD0 (Some 1) None)
        (machine_with (\<lambda>n p. if p = ALG_REG_FM1_ADDR then 0x0D else 0x04)))) =
        [PortWrite ALG_REG_FM1_ADDR ALG_BANK_CONTROL, PortRead ALG_REG_FM1_ADDR 0x0D,
         PortWrite ALG_REG_FM1_ADDR ALG_BANK_OPL3, PortRead ALG_REG_MMA0_ADDR 0x04, WaveISR 1]"
  using ISR_sampling_dispatch
    [of "machine_with (\<lambda>n p. if p = ALG_REG_FM1_ADDR then 0x0D else 0x04)"
        "adapter_in PowerDeviceD0 (Some 1) None"]
  by (simp add: next_input_def second_input_def machine_with_def adapter_in_def)

text \<open>
  Claim C4.  A change to \<^verbatim>\<open>PowerDeviceD0\<close> from any other state stores the new
  state first and then runs the replay loop on the adapter object that already
  holds \<^verbatim>\<open>PowerDeviceD0\<close>; the adapter object ends as before but for the power
  state, and the port writes added to the trace are exactly, for each register
  0x04 to 0x0F in ascending order, bank select, register index, the cached value
  of that register, bank restore.  A change from \<^verbatim>\<open>PowerDeviceD0\<close> to D1, D2 or D3
  only stores the new state and leaves the machine untouched.
\<close>
theorem PowerChangeState_replays_mixer_range:
  assumes "cache_ok a"
  shows "(m_PowerState a \<noteq> PowerDeviceD0 \<longrightarrow>
            PowerChangeState_loop CTRL_MIXER_FIRST (a\<lparr>m_PowerState := PowerDeviceD0\<rparr>) m =
              PowerChangeState PowerDeviceD0 a m
          \<and> fst (PowerChangeState PowerDeviceD0 a m) = a\<lparr>m_PowerState := PowerDeviceD0\<rparr>
          \<and> all_writes (io_trace (snd (PowerChangeState PowerDeviceD0 a m))) =
              all_writes (io_trace m)
              @ concat (map (replay_writes (m_ControlRegs a)) [CTRL_MIXER_FIRST..<Suc CTRL_MIXER_LAST]))
       \<and> (m_PowerState a = PowerDeviceD0 \<and> ns \<in> {PowerDeviceD1, PowerDeviceD2, PowerDeviceD3} \<longrightarrow>
            PowerChangeState ns a m = (a\<lparr>m_PowerState := ns\<rparr>, m))"
proof -
  let ?a = "a\<lparr>m_PowerState := PowerDeviceD0\<rparr>"
  have c: "cache_ok ?a" using assms by (simp add: cache_ok_def)
  have op: "operative ?a" by (simp add: operative_def)
  have le: "CTRL_MIXER_FIRST \<le> Suc CTRL_MIXER_LAST" by simp
  from PowerChangeState_loop_replay[OF c op le, of m]
  show ?thesis
    by (auto simp: PowerChangeState_def)
qed


theorem PowerChangeState_replays_mixer_range_witness:
  "cache_ok (adapter_in PowerDeviceD3 None None)
   \<and> m_PowerState (adapter_in PowerDeviceD3 None None) \<noteq> PowerDeviceD0
   \<and> fst (PowerChangeState PowerDeviceD0 (adapter_in PowerDeviceD3 None None) (machine_with (\<lambda>n p. 0)))
       = adapter_in PowerDeviceD0 None None
   \<and> all_writes (io_trace (snd (PowerChangeState PowerDeviceD0 (adapter_in PowerDeviceD3 None None)
                   (machine_with (\<lambda>n p. 0))))) =
        concat (map (replay_writes (replicate CTRL_REG_MAX 0)) [CTRL_MIXER_FIRST..<Suc CTRL_MIXER_LAST])
   \<and> cache_ok (adapter_in PowerDeviceD0 None None)
   \<and> m_PowerState (adapter_in PowerDeviceD0 None None) = PowerDeviceD0
   \<and> PowerDeviceD2 \<in> {PowerDeviceD1, PowerDeviceD2, PowerDeviceD3}
   \<and> PowerChangeState PowerDeviceD2 (adapter_in PowerDeviceD0 None None) (machine_with (\<lambda>n p. 0))
       = (adapter_in PowerDeviceD2 None None, machine_with (\<lambda>n p. 0))"
proof -
  have c3: "cache_ok (adapter_in PowerDeviceD3 None None)"
    and c0: "cache_ok (adapter_in PowerDeviceD0 None None)"
    by (simp_all add: cache_ok_def adapter_in_def)
  have ps: "m_PowerState (adapter_in PowerDeviceD3 None None) \<noteq> PowerDeviceD0"
    "m_PowerState (adapter_in PowerDeviceD0 None None) = PowerDeviceD0"
    by (simp_all add: adapter_in_def)
  have up: "(adapter_in PowerDeviceD3 None None)\<lparr>m_PowerState := PowerDeviceD0\<rparr>
              = adapter_in PowerDeviceD0 None None"
    "(adapter_in PowerDeviceD0 None None)\<lparr>m_PowerState := PowerDeviceD2\<rparr>
              = adapter_in PowerDeviceD2 None None"
    "m_ControlRegs (adapter_in PowerDeviceD3 None None) = replicate CTRL_REG_MAX 0"
    by (simp_all add: adapter_in_def)
  have tr: "io_trace (machine_with (\<lambda>n p. 0)) = []"
    by (simp add: machine_with_def)
  have A: "fst (PowerChangeState PowerDeviceD0 (adapter_in PowerDeviceD3 None None)
                (machine_with (\<lambda>n p. 0))) = adapter_in PowerDeviceD0 None None"
    and B: "all_writes (io_trace (snd (PowerChangeState PowerDeviceD0
                (adapter_in PowerDeviceD3 None None) (machine_with (\<lambda>n p. 0))))) =
        concat (map (replay_writes (replicate CTRL_REG_MAX 0)) [CTRL_MIXER_FIRST..<Suc CTRL_MIXER_LAST])"
    using PowerChangeState_replays_mixer_range
            [OF c3, of "machine_with (\<lambda>n p. 0)" PowerDeviceD1] ps(1)
    unfolding up tr by simp_all
  have C: "PowerChangeState PowerDeviceD2 (adapter_in PowerDeviceD0 None None) (machine_with (\<lambda>n p. 0))
       = (adapter_in PowerDeviceD2 None None, machine_with (\<lambda>n p. 0))"
    using PowerChangeState_replays_mixer_range
            [OF c0, of "machine_with (\<lambda>n p. 0)" PowerDeviceD2] ps(2)
    unfolding up by simp
  show ?thesis
    using A B C c3 c0 ps by simp
qed

text \<open>
  Claim C5, as amended.  \<^verbatim>\<open>ControlRegWrite\<close> treats the reserved index 0x12 like
  any other index of the cache: after \<^verbatim>\<open>ControlRegWrite(0x12, v)\<close> the cache entry
  for 0x12 is \<open>v\<close> and \<^verbatim>\<open>ControlRegRead(0x12)\<close> returns \<open>v\<close>, which is 0 only when
  \<open>v\<close> is.  The entry is made zero by \<^verbatim>\<open>ControlRegReset\<close>, which ends with
  \<^verbatim>\<open>ControlRegWrite(CTRL_REG_RESERVED, 0x00)\<close>: after it, whatever the registry
  answers, the cache entry for 0x12 is 0 and \<^verbatim>\<open>ControlRegRead(0x12)\<close> returns 0.
\<close>
theorem reserved_register_is_zero_after_reset:
  assumes "cache_ok a"
  shows "ControlRegRead CTRL_REG_RESERVED (fst (ControlRegWrite CTRL_REG_RESERVED v a m)) = v
       \<and> m_ControlRegs (fst (ControlRegWrite CTRL_REG_RESERVED v a m)) ! unat CTRL_REG_RESERVED = v
       \<and> ControlRegRead CTRL_REG_RESERVED (fst (ControlRegReset env a m)) = 0
       \<and> m_ControlRegs (fst (ControlRegReset env a m)) ! unat CTRL_REG_RESERVED = 0"
proof -
  have w: "cache_ok b \<Longrightarrow>
      ControlRegRead CTRL_REG_RESERVED (fst (ControlRegWrite CTRL_REG_RESERVED x b n)) = x
    \<and> m_ControlRegs (fst (ControlRegWrite CTRL_REG_RESERVED x b n)) ! unat CTRL_REG_RESERVED = x"
    for b x n
    by (simp add: ControlRegWrite_fst ControlRegRead_def cache_ok_def)
  from ControlRegReset_eq[of env a m] assms obtain a2 m2 where
    "ControlRegReset env a m = ControlRegWrite CTRL_REG_RESERVED 0x00 a2 m2" "cache_ok a2"
    by blast
  with w[of a2 0 m2] w[OF assms, of v m] show ?thesis by simp
qed

theorem reserved_register_is_zero_after_reset_witness:
  "cache_ok (adapter_in PowerDeviceD0 None None)
   \<and> ControlRegRead CTRL_REG_RESERVED
        (fst (ControlRegWrite CTRL_REG_RESERVED 0x05 (adapter_in PowerDeviceD0 None None)
           (machine_with (\<lambda>n p. 0)))) = 0x05
   \<and> ControlRegRead CTRL_REG_RESERVED
        (fst (ControlRegReset registry_absent (adapter_in PowerDeviceD0 None None)
           (machine_with (\<lambda>n p. 0)))) = 0"
proof -
  have c: "cache_ok (adapter_in PowerDeviceD0 None None)"
    by (simp add: cache_ok_def adapter_in_def)
  show ?thesis
    using reserved_register_is_zero_after_reset
      [OF c, of "0x05" "machine_with (\<lambda>n p. 0)" registry_absent] c
    by simp
qed

text \<open>The claim as it was stated fails: a write of 0x05 to index 0x12 is cached
  and read back as it is.\<close>

theorem reserved_register_write_counterexample:
  "ControlRegRead CTRL_REG_RESERVED
     (fst (ControlRegWrite CTRL_REG_RESERVED 0x05 (adapter_in PowerDeviceD0 None None)
        (machine_with (\<lambda>n p. 0)))) \<noteq> 0
   \<and> m_ControlRegs
     (fst (ControlRegWrite CTRL_REG_RESERVED 0x05 (adapter_in PowerDeviceD0 None None)
        (machine_with (\<lambda>n p. 0)))) ! unat CTRL_REG_RESERVED \<noteq> 0"
  by (simp add: ControlRegWrite_fst ControlRegRead_def adapter_in_def)

text \<open>
  Claim C6.  When the low four bits of the status byte read from base+2 are all 1,
  the interrupt service routine returns \<^verbatim>\<open>STATUS_UNSUCCESSFUL\<close>, and its only
  events are the bank select, the status read and the bank restore: no miniport
  is called and neither the MMA status (base+4) nor the OPL3 status (base+0) is
  read.
\<close>
theorem ISR_not_mine:
  assumes "next_input ALG_REG_FM1_ADDR m AND ALG_STATUS_IRQ_MASK = ALG_STATUS_IRQ_MASK"
  shows "fst (InterruptServiceRoutine that m) = STATUS_UNSUCCESSFUL
       \<and> io_trace (snd (InterruptServiceRoutine that m)) =
           io_trace m
           @ [PortWrite ALG_REG_FM1_ADDR ALG_BANK_CONTROL,
              PortRead ALG_REG_FM1_ADDR (next_input ALG_REG_FM1_ADDR m),
              PortWrite ALG_REG_FM1_ADDR ALG_BANK_OPL3]
       \<and> wave_calls (io_trace (snd (InterruptServiceRoutine that m))) = wave_calls (io_trace m)
       \<and> midi_calls (io_trace (snd (InterruptServiceRoutine that m))) = midi_calls (io_trace m)
       \<and> port_reads ALG_REG_MMA0_ADDR (io_trace (snd (InterruptServiceRoutine that m))) =
           port_reads ALG_REG_MMA0_ADDR (io_trace m)
       \<and> port_reads ALG_REG_FM0_ADDR (io_trace (snd (InterruptServiceRoutine that m))) =
           port_reads ALG_REG_FM0_ADDR (io_trace m)"
  using assms
  by (simp add: InterruptServiceRoutine_def READ_PORT_UCHAR_def WRITE_PORT_UCHAR_def
      next_input_def Let_def)


theorem ISR_not_mine_witness:
  "next_input ALG_REG_FM1_ADDR (machine_with (\<lambda>n p. 0x0F)) AND ALG_STATUS_IRQ_MASK
     = ALG_STATUS_IRQ_MASK
   \<and> fst (InterruptServiceRoutine (adapter_in PowerDeviceD0 (Some 1) (Some 2))
        (machine_with (\<lambda>n p. 0x0F))) = STATUS_UNSUCCESSFUL
   \<and> io_trace (snd (InterruptServiceRoutine (adapter_in PowerDeviceD0 (Some 1) (Some 2))
        (machine_with (\<lambda>n p. 0x0F)))) =
        [PortWrite ALG_REG_FM1_ADDR ALG_BANK_CONTROL, PortRead ALG_REG_FM1_ADDR 0x0F,
         PortWrite ALG_REG_FM1_ADDR ALG_BANK_OPL3]"
  using ISR_not_mine
    [of "machine_with (\<lambda>n p. 0x0F)" "adapter_in PowerDeviceD0 (Some 1) (Some 2)"]
  by (simp add: next_input_def machine_with_def)

text \<open>
  Claim C7.  In an operative power state \<^verbatim>\<open>RestoreFromEEPROM\<close> returns
  \<^verbatim>\<open>STATUS_SUCCESS\<close>, and its events are: bank select, busy-poll, selection of
  register 0, the restore command bit, the stall of 2500 microseconds, a second
  busy-poll, then for every index 0x00 to 0x18 in order the index write and a
  read of base+3 whose value is the new cache entry of that index, then the bank
  restore.  Both busy-polls are the ones the hardware determines, and the new
  shadow cache is the list of the 25 bytes that the hardware returns on base+3
  for the 25 port reads that follow the second busy-poll, whatever the cache held
  before; the machine has then made exactly these reads.  The card model and
  options are taken from the new entry 0.  Below operative level the call returns
  \<^verbatim>\<open>STATUS_DEVICE_POWERED_OFF\<close> and changes neither the adapter object nor the
  machine.
\<close>
theorem RestoreFromEEPROM_resynchronises_cache:
  assumes "cache_ok a"
  shows "(operative a \<longrightarrow>
            fst (RestoreFromEEPROM a m) = STATUS_SUCCESS
          \<and> length (m_ControlRegs (fst (snd (RestoreFromEEPROM a m)))) = CTRL_REG_MAX
          \<and> (\<exists>w1 w2. is_status_poll w1 \<and> is_status_poll w2 \<and>
                poll_from (port_input m) (reads_done m) w1 \<and>
                poll_from (port_input m) (reads_done m + length w1) w2 \<and>
                io_trace (snd (snd (RestoreFromEEPROM a m))) =
                  io_trace m
                  @ PortWrite ALG_REG_FM1_ADDR ALG_BANK_CONTROL # w1
                  @ [PortWrite ALG_REG_FM1_ADDR CTRL_REG_CONTROL_ID,
                     PortWrite ALG_REG_FM1_DATA CTRL_ID_RESTORE, Stall 2500]
                  @ w2
                  @ concat (map (readback_events (m_ControlRegs (fst (snd (RestoreFromEEPROM a m)))))
                             [0..<CTRL_REG_MAX])
                  @ [PortWrite ALG_REG_FM1_ADDR ALG_BANK_OPL3] \<and>
                m_ControlRegs (fst (snd (RestoreFromEEPROM a m))) =
                  map (\<lambda>k. port_input m (reads_done m + length w1 + length w2 + k) ALG_REG_FM1_DATA)
                    [0..<CTRL_REG_MAX] \<and>
                reads_done (snd (snd (RestoreFromEEPROM a m))) =
                  reads_done m + length w1 + length w2 + CTRL_REG_MAX)
          \<and> port_input (snd (snd (RestoreFromEEPROM a m))) = port_input m
          \<and> port_reads ALG_REG_FM1_DATA (io_trace (snd (snd (RestoreFromEEPROM a m)))) =
              port_reads ALG_REG_FM1_DATA (io_trace m)
              @ m_ControlRegs (fst (snd (RestoreFromEEPROM a m)))
          \<and> m_CardModel (fst (snd (RestoreFromEEPROM a m))) =
              m_ControlRegs (fst (snd (RestoreFromEEPROM a m))) ! 0 AND CTRL_ID_MODEL_MASK
          \<and> m_CardOptions (fst (snd (RestoreFromEEPROM a m))) =
              m_ControlRegs (fst (snd (RestoreFromEEPROM a m))) ! 0
          \<and> fst (snd (RestoreFromEEPROM a m)) =
              a\<lparr>m_ControlRegs := m_ControlRegs (fst (snd (RestoreFromEEPROM a m))),
                m_CardModel := m_ControlRegs (fst (snd (RestoreFromEEPROM a m))) ! 0 AND CTRL_ID_MODEL_MASK,
                m_CardOptions := m_ControlRegs (fst (snd (RestoreFromEEPROM a m))) ! 0\<rparr>)
       \<and> (\<not> operative a \<longrightarrow> RestoreFromEEPROM a m = (STATUS_DEVICE_POWERED_OFF, a, m))"
proof (cases "operative a")
  case False
  then show ?thesis
    by (simp add: RestoreFromEEPROM_def operative_def)
next
  case True
  define m1 where "m1 = WRITE_PORT_UCHAR ALG_REG_FM1_ADDR ALG_BANK_CONTROL m"
  define m2 where "m2 = snd (WaitForReady m1)"
  define m5 where "m5 = KeStallExecutionProcessor 2500
      (WRITE_PORT_UCHAR ALG_REG_FM1_DATA CTRL_ID_RESTORE
        (WRITE_PORT_UCHAR ALG_REG_FM1_ADDR CTRL_REG_CONTROL_ID m2))"
  define m6 where "m6 = snd (WaitForReady m5)"
  define L where "L = RestoreFromEEPROM_loop 0 a m6"
  define regs where "regs = m_ControlRegs (fst L)"
  have o1: "port_input m1 = port_input m" "reads_done m1 = reads_done m"
    by (simp_all add: m1_def WRITE_PORT_UCHAR_def)
  obtain w1 where w1: "io_trace m2 = io_trace m1 @ w1"
      "poll_from (port_input m) (reads_done m) w1"
      "port_input m2 = port_input m" "reads_done m2 = reads_done m + length w1"
    unfolding m2_def using WaitForReady_oracle[of m1] unfolding o1 by blast
  have o5: "port_input m5 = port_input m" "reads_done m5 = reads_done m + length w1"
    using w1(3,4) by (simp_all add: m5_def WRITE_PORT_UCHAR_def KeStallExecutionProcessor_def)
  obtain w2 where w2: "io_trace m6 = io_trace m5 @ w2"
      "poll_from (port_input m) (reads_done m + length w1) w2"
      "port_input m6 = port_input m" "reads_done m6 = reads_done m + length w1 + length w2"
    unfolding m6_def using WaitForReady_oracle[of m5] unfolding o5 by blast
  note p1 = poll_from_is_poll[OF w1(2)] and p2 = poll_from_is_poll[OF w2(2)]
  have z: "(0::nat) \<le> CTRL_REG_MAX" by simp
  from RestoreFromEEPROM_loop_readback[OF assms z, of m6]
  have lp: "cache_ok (fst L)" "fst L = a\<lparr>m_ControlRegs := regs\<rparr>"
    "io_trace (snd L) = io_trace m6 @ concat (map (readback_events regs) [0..<CTRL_REG_MAX])"
    unfolding L_def regs_def by blast+
  from RestoreFromEEPROM_loop_oracle[OF assms z, of m6]
  have lo: "port_input (snd L) = port_input m"
    "reads_done (snd L) = reads_done m + length w1 + length w2 + CTRL_REG_MAX"
    "\<forall>k. k < CTRL_REG_MAX \<longrightarrow>
        regs ! k = port_input m (reads_done m + length w1 + length w2 + k) ALG_REG_FM1_DATA"
    unfolding L_def[symmetric] regs_def[symmetric] w2(3,4) by simp_all
  have res: "RestoreFromEEPROM a m =
      (STATUS_SUCCESS,
       a\<lparr>m_ControlRegs := regs, m_CardModel := regs ! 0 AND CTRL_ID_MODEL_MASK, m_CardOptions := regs ! 0\<rparr>,
       WRITE_PORT_UCHAR ALG_REG_FM1_ADDR ALG_BANK_OPL3 (snd L))"
  proof -
    have "RestoreFromEEPROM a m =
      (STATUS_SUCCESS,
       (fst L)\<lparr>m_CardModel := m_ControlRegs (fst L) ! 0 AND CTRL_ID_MODEL_MASK,
               m_CardOptions := m_ControlRegs (fst L) ! 0\<rparr>,
       WRITE_PORT_UCHAR ALG_REG_FM1_ADDR ALG_BANK_OPL3 (snd L))"
      using True
      by (simp add: RestoreFromEEPROM_def operative_def Let_def split_beta
          L_def m6_def m5_def m2_def m1_def)
    also have "(fst L)\<lparr>m_CardModel := m_ControlRegs (fst L) ! 0 AND CTRL_ID_MODEL_MASK,
               m_CardOptions := m_ControlRegs (fst L) ! 0\<rparr> =
       a\<lparr>m_ControlRegs := regs, m_CardModel := regs ! 0 AND CTRL_ID_MODEL_MASK, m_CardOptions := regs ! 0\<rparr>"
      by (subst lp(2)) (simp add: regs_def[symmetric])
    finally show ?thesis .
  qed
  have len: "length regs = CTRL_REG_MAX"
    using lp(1) by (simp add: cache_ok_def regs_def)
  have tr: "io_trace (snd (snd (RestoreFromEEPROM a m))) =
                  io_trace m
                  @ PortWrite ALG_REG_FM1_ADDR ALG_BANK_CONTROL # w1
                  @ [PortWrite ALG_REG_FM1_ADDR CTRL_REG_CONTROL_ID,
                     PortWrite ALG_REG_FM1_DATA CTRL_ID_RESTORE, Stall 2500]
                  @ w2
                  @ concat (map (readback_events regs) [0..<CTRL_REG_MAX])
                  @ [PortWrite ALG_REG_FM1_ADDR ALG_BANK_OPL3]"
    using lp(3) w1(1) w2(1)
    by (simp add: res m5_def m1_def WRITE_PORT_UCHAR_def KeStallExecutionProcessor_def)
  have rd: "port_reads ALG_REG_FM1_DATA (io_trace (snd (snd (RestoreFromEEPROM a m)))) =
              port_reads ALG_REG_FM1_DATA (io_trace m) @ regs"
  proof -
    have "map ((!) regs) [0..<CTRL_REG_MAX] = regs"
      using len map_nth[of regs] by simp
    then show ?thesis
      using p1 p2 readback_port_reads[of regs "[0..<CTRL_REG_MAX]"]
      by (simp only: tr port_reads_append) simp
  qed
  have rv: "regs = map (\<lambda>k. port_input m (reads_done m + length w1 + length w2 + k) ALG_REG_FM1_DATA)
                    [0..<CTRL_REG_MAX]"
  proof (rule nth_equalityI)
    show "length regs = length (map (\<lambda>k. port_input m (reads_done m + length w1 + length w2 + k)
              ALG_REG_FM1_DATA) [0..<CTRL_REG_MAX])"
      using len by simp
  next
    fix i assume "i < length regs"
    then have i: "i < CTRL_REG_MAX" using len by simp
    with lo(3) have "regs ! i = port_input m (reads_done m + length w1 + length w2 + i) ALG_REG_FM1_DATA"
      by blast
    with i show "regs ! i = map (\<lambda>k. port_input m (reads_done m + length w1 + length w2 + k)
              ALG_REG_FM1_DATA) [0..<CTRL_REG_MAX] ! i"
      by simp
  qed
  have regs_eq: "m_ControlRegs (fst (snd (RestoreFromEEPROM a m))) = regs"
    by (simp add: res)
  have mach: "port_input (snd (snd (RestoreFromEEPROM a m))) = port_input m"
    "reads_done (snd (snd (RestoreFromEEPROM a m))) =
       reads_done m + length w1 + length w2 + CTRL_REG_MAX"
    using lo(1,2) by (simp_all add: res WRITE_PORT_UCHAR_def)
  have ex: "\<exists>w1 w2. is_status_poll w1 \<and> is_status_poll w2 \<and>
                poll_from (port_input m) (reads_done m) w1 \<and>
                poll_from (port_input m) (reads_done m + length w1) w2 \<and>
                io_trace (snd (snd (RestoreFromEEPROM a m))) =
                  io_trace m
                  @ PortWrite ALG_REG_FM1_ADDR ALG_BANK_CONTROL # w1
                  @ [PortWrite ALG_REG_FM1_ADDR CTRL_REG_CONTROL_ID,
                     PortWrite ALG_REG_FM1_DATA CTRL_ID_RESTORE, Stall 2500]
                  @ w2
                  @ concat (map (readback_events regs) [0..<CTRL_REG_MAX])
                  @ [PortWrite ALG_REG_FM1_ADDR ALG_BANK_OPL3] \<and>
                regs =
                  map (\<lambda>k. port_input m (reads_done m + length w1 + length w2 + k) ALG_REG_FM1_DATA)
                    [0..<CTRL_REG_MAX] \<and>
                reads_done (snd (snd (RestoreFromEEPROM a m))) =
                  reads_done m + length w1 + length w2 + CTRL_REG_MAX"
    using p1 p2 w1(2) w2(2) tr rv mach(2) by blast
  have rest: "fst (RestoreFromEEPROM a m) = STATUS_SUCCESS"
    "m_CardModel (fst (snd (RestoreFromEEPROM a m))) = regs ! 0 AND CTRL_ID_MODEL_MASK"
    "m_CardOptions (fst (snd (RestoreFromEEPROM a m))) = regs ! 0"
    "fst (snd (RestoreFromEEPROM a m)) =
       a\<lparr>m_ControlRegs := regs, m_CardModel := regs ! 0 AND CTRL_ID_MODEL_MASK,
         m_CardOptions := regs ! 0\<rparr>"
    by (simp_all add: res)
  show ?thesis
    unfolding regs_eq using True len ex mach(1) rd rest by blast
qed

theorem RestoreFromEEPROM_resynchronises_cache_witness:
  "cache_ok (adapter_in PowerDeviceD0 None None) \<and> operative (adapter_in PowerDeviceD0 None None)
   \<and> fst (RestoreFromEEPROM (adapter_in PowerDeviceD0 None None)
        (machine_with (\<lambda>n p. if p = ALG_REG_FM1_DATA then of_nat n else 0))) = STATUS_SUCCESS
   \<and> m_ControlRegs (fst (snd (RestoreFromEEPROM (adapter_in PowerDeviceD0 None None)
        (machine_with (\<lambda>n p. if p = ALG_REG_FM1_DATA then of_nat n else 0)))))
       = map (\<lambda>k. of_nat (k + 2)) [0..<CTRL_REG_MAX]
   \<and> m_CardModel (fst (snd (RestoreFromEEPROM (adapter_in PowerDeviceD0 None None)
        (machine_with (\<lambda>n p. if p = ALG_REG_FM1_DATA then of_nat n else 0))))) = 0x02
   \<and> m_CardOptions (fst (snd (RestoreFromEEPROM (adapter_in PowerDeviceD0 None None)
        (machine_with (\<lambda>n p. if p = ALG_REG_FM1_DATA then of_nat n else 0))))) = 0x02
   \<and> reads_done (snd (snd (RestoreFromEEPROM (adapter_in PowerDeviceD0 None None)
        (machine_with (\<lambda>n p. if p = ALG_REG_FM1_DATA then of_nat n else 0))))) = 27
   \<and> cache_ok (adapter_in PowerDeviceD3 None None) \<and> \<not> operative (adapter_in PowerDeviceD3 None None)
   \<and> RestoreFromEEPROM (adapter_in PowerDeviceD3 None None) (machine_with (\<lambda>n p. 0x21))
       = (STATUS_DEVICE_POWERED_OFF, adapter_in PowerDeviceD3 None None, machine_with (\<lambda>n p. 0x21))"
proof -
  let ?f = "\<lambda>(n::nat) (p::nat). if p = ALG_REG_FM1_DATA then (of_nat n :: UCHAR) else 0"
  let ?m = "machine_with ?f"
  let ?a = "adapter_in PowerDeviceD0 None None"
  let ?R = "RestoreFromEEPROM ?a ?m"
  have c0: "cache_ok ?a"
    and c3: "cache_ok (adapter_in PowerDeviceD3 None None)"
    by (simp_all add: cache_ok_def adapter_in_def)
  have op: "operative ?a" "\<not> operative (adapter_in PowerDeviceD3 None None)"
    by (simp_all add: operative_def adapter_in_def)
  have m0: "port_input ?m = ?f" "reads_done ?m = 0"
    by (simp_all add: machine_with_def)
  have idle: "\<forall>j. ?f (n + j) ALG_REG_FM1_ADDR AND ALG_STATUS_BUSY_MASK = 0" for n
    by simp
  from RestoreFromEEPROM_resynchronises_cache[OF c0, of ?m] op(1)
  obtain w1 w2 where st: "fst ?R = STATUS_SUCCESS"
    and w: "poll_from ?f 0 w1" "poll_from ?f (0 + length w1) w2"
    and regs: "m_ControlRegs (fst (snd ?R)) =
        map (\<lambda>k. ?f (0 + length w1 + length w2 + k) ALG_REG_FM1_DATA) [0..<CTRL_REG_MAX]"
    and rc: "reads_done (snd (snd ?R)) = 0 + length w1 + length w2 + CTRL_REG_MAX"
    and mo: "m_CardModel (fst (snd ?R)) = m_ControlRegs (fst (snd ?R)) ! 0 AND CTRL_ID_MODEL_MASK"
      "m_CardOptions (fst (snd ?R)) = m_ControlRegs (fst (snd ?R)) ! 0"
    unfolding m0 by blast
  have l1: "length w1 = 1" using poll_from_idle[OF w(1) idle] .
  have l2: "length w2 = 1" using poll_from_idle[OF w(2) idle] .
  have regs': "m_ControlRegs (fst (snd ?R)) = map (\<lambda>k. of_nat (k + 2)) [0..<CTRL_REG_MAX]"
    unfolding regs l1 l2 by (simp add: add.commute)
  have r0: "m_ControlRegs (fst (snd ?R)) ! 0 = 0x02"
    unfolding regs' by simp
  have mo': "m_CardModel (fst (snd ?R)) = 0x02" "m_CardOptions (fst (snd ?R)) = 0x02"
    unfolding mo r0 by simp_all
  have rc': "reads_done (snd (snd ?R)) = 27"
    unfolding rc l1 l2 by simp
  have off: "RestoreFromEEPROM (adapter_in PowerDeviceD3 None None) (machine_with (\<lambda>n p. 0x21))
       = (STATUS_DEVICE_POWERED_OFF, adapter_in PowerDeviceD3 None None, machine_with (\<lambda>n p. 0x21))"
    using RestoreFromEEPROM_resynchronises_cache[OF c3, of "machine_with (\<lambda>n p. 0x21)"] op(2)
    by blast
  from c0 c3 op st regs' mo' rc' off show ?thesis by blast
qed

text \<open>
  Claim C8.  \<^verbatim>\<open>ControlRegWrite\<close> returns no status (its result is the new adapter
  object and machine only).  The shadow cache is updated for every index below
  \<^verbatim>\<open>CTRL_REG_MAX\<close>.  In an operative power state the call emits the bank select,
  a busy-poll of at most 1000 reads, the register-index write, the data write,
  the settle step and the bank restore, whatever the status port answers;
  \<^verbatim>\<open>WaitForReady\<close> reports a timeout exactly when all 1000 reads showed a busy bit,
  and the remaining steps are emitted in that case too.
\<close>
theorem ControlRegWrite_proceeds_when_poll_budget_exhausted:
  "m_ControlRegs (fst (ControlRegWrite r v a m)) =
     (if unat r < CTRL_REG_MAX then (m_ControlRegs a)[unat r := v] else m_ControlRegs a)
   \<and> (operative a \<longrightarrow>
        (\<exists>w st. io_trace (snd (ControlRegWrite r v a m)) =
           io_trace m @ PortWrite ALG_REG_FM1_ADDR ALG_BANK_CONTROL # w
             @ [PortWrite ALG_REG_FM1_ADDR r, PortWrite ALG_REG_FM1_DATA v] @ st
             @ [PortWrite ALG_REG_FM1_ADDR ALG_BANK_OPL3]
         \<and> is_status_poll w \<and> settle_ok r st
         \<and> (\<not> fst (WaitForReady (WRITE_PORT_UCHAR ALG_REG_FM1_ADDR ALG_BANK_CONTROL m)) \<longleftrightarrow>
              length w = 1000 \<and>
              list_all (\<lambda>x. x AND ALG_STATUS_BUSY_MASK \<noteq> 0) (port_reads ALG_REG_FM1_ADDR w))))"
  using ControlRegWrite_on[of a r v m] by (simp add: ControlRegWrite_fst)

theorem ControlRegWrite_proceeds_when_poll_budget_exhausted_witness:
  "operative (adapter_in PowerDeviceD0 None None)
   \<and> \<not> fst (WaitForReady (WRITE_PORT_UCHAR ALG_REG_FM1_ADDR ALG_BANK_CONTROL (machine_with (\<lambda>n p. 0xFF))))
   \<and> m_ControlRegs (fst (ControlRegWrite 0x06 0xF9 (adapter_in PowerDeviceD0 None None)
        (machine_with (\<lambda>n p. 0xFF)))) ! 6 = 0xF9
   \<and> (\<exists>w st. io_trace (snd (ControlRegWrite 0x06 0xF9 (adapter_in PowerDeviceD0 None None)
                  (machine_with (\<lambda>n p. 0xFF)))) =
           PortWrite ALG_REG_FM1_ADDR ALG_BANK_CONTROL # w
             @ [PortWrite ALG_REG_FM1_ADDR 0x06, PortWrite ALG_REG_FM1_DATA 0xF9] @ st
             @ [PortWrite ALG_REG_FM1_ADDR ALG_BANK_OPL3]
         \<and> length w = 1000 \<and> is_status_poll st)"
proof -
  let ?a = "adapter_in PowerDeviceD0 None None"
  let ?m = "machine_with (\<lambda>n p. 0xFF)"
  have op: "operative ?a" by (simp add: operative_def adapter_in_def)
  have busy: "\<not> fst (WaitForReady (WRITE_PORT_UCHAR ALG_REG_FM1_ADDR ALG_BANK_CONTROL ?m))"
    by (rule WaitForReady_always_busy) (simp add: WRITE_PORT_UCHAR_def machine_with_def)
  show ?thesis
    using ControlRegWrite_proceeds_when_poll_budget_exhausted[of "0x06" "0xF9" ?a ?m] op busy
    apply (simp add: settle_ok_def)
    apply (simp add: adapter_in_def machine_with_def)
    by blast
qed

text \<open>
  Claim C9, as amended.  When the resource list holds a port range and an
  interrupt and the card reports ready within the poll budget, \<^verbatim>\<open>Init\<close> reads the
  identity byte from base+3 (its only read of that port) and stores its low four
  bits in \<open>m_CardModel\<close>.  \<^verbatim>\<open>Init\<close> then succeeds exactly when these bits are a
  recognized model code (0x00, 0x01 or 0x02) and the interrupt set-up succeeds;
  for any other code it fails with \<^verbatim>\<open>STATUS_DEVICE_DOES_NOT_EXIST\<close>.
\<close>
theorem Init_succeeds_for_recognized_model:
  assumes "1 \<le> NumberOfPorts env" and "1 \<le> NumberOfInterrupts env" and "Init_ready m"
  shows "port_reads ALG_REG_FM1_DATA (io_trace (snd (snd (Init env a m)))) =
           port_reads ALG_REG_FM1_DATA (io_trace m) @ [Init_idByte m]
       \<and> (NT_SUCCESS (fst (Init env a m)) \<longleftrightarrow>
            Init_idByte m AND CTRL_ID_MODEL_MASK
              \<in> {ALG_MODEL_GOLD1000, ALG_MODEL_GOLD2000, ALG_MODEL_GOLD2000MC}
            \<and> sync_ok env)
       \<and> m_CardModel (fst (snd (Init env a m))) = Init_idByte m AND CTRL_ID_MODEL_MASK
       \<and> (Init_idByte m AND CTRL_ID_MODEL_MASK
              \<notin> {ALG_MODEL_GOLD1000, ALG_MODEL_GOLD2000, ALG_MODEL_GOLD2000MC} \<longrightarrow>
            fst (Init env a m) = STATUS_DEVICE_DOES_NOT_EXIST)"
proof -
  note p = Init_probed[OF assms, of a]
  have rec: "unat (Init_idByte m AND CTRL_ID_MODEL_MASK) > unat ALG_MODEL_GOLD2000MC \<longleftrightarrow>
      Init_idByte m AND CTRL_ID_MODEL_MASK
        \<notin> {ALG_MODEL_GOLD1000, ALG_MODEL_GOLD2000, ALG_MODEL_GOLD2000MC}"
    using model_recognized[of "Init_idByte m AND CTRL_ID_MODEL_MASK"] by auto
  have st: "NT_SUCCESS (fst (Init env a m)) \<longleftrightarrow>
            Init_idByte m AND CTRL_ID_MODEL_MASK
              \<in> {ALG_MODEL_GOLD1000, ALG_MODEL_GOLD2000, ALG_MODEL_GOLD2000MC}
            \<and> sync_ok env"
  proof (cases "unat (Init_idByte m AND CTRL_ID_MODEL_MASK) > unat ALG_MODEL_GOLD2000MC")
    case True
    then show ?thesis using rec by (simp only: p(1) if_True NT_SUCCESS_consts) simp
  next
    case False
    then show ?thesis using rec by (simp only: p(1) if_False sync_status_ok) simp
  qed
  have dne: "Init_idByte m AND CTRL_ID_MODEL_MASK
              \<notin> {ALG_MODEL_GOLD1000, ALG_MODEL_GOLD2000, ALG_MODEL_GOLD2000MC} \<longrightarrow>
            fst (Init env a m) = STATUS_DEVICE_DOES_NOT_EXIST"
    using rec by (simp only: p(1)) simp
  from p(2,3) st dne show ?thesis by blast
qed

theorem Init_succeeds_for_recognized_model_witness:
  "1 \<le> NumberOfPorts (init_env_with STATUS_SUCCESS)
   \<and> 1 \<le> NumberOfInterrupts (init_env_with STATUS_SUCCESS)
   \<and> sync_ok (init_env_with STATUS_SUCCESS)
   \<and> Init_ready (machine_with (\<lambda>n p. if p = ALG_REG_FM1_DATA then 0x01 else 0))
   \<and> NT_SUCCESS (fst (Init (init_env_with STATUS_SUCCESS) (adapter_in PowerDeviceD0 None None)
        (machine_with (\<lambda>n p. if p = ALG_REG_FM1_DATA then 0x01 else 0))))
   \<and> m_CardModel (fst (snd (Init (init_env_with STATUS_SUCCESS) (adapter_in PowerDeviceD0 None None)
        (machine_with (\<lambda>n p. if p = ALG_REG_FM1_DATA then 0x01 else 0))))) = ALG_MODEL_GOLD2000
   \<and> Init_ready (machine_with (\<lambda>n p. if p = ALG_REG_FM1_DATA then 0x07 else 0))
   \<and> fst (Init (init_env_with STATUS_SUCCESS) (adapter_in PowerDeviceD0 None None)
        (machine_with (\<lambda>n p. if p = ALG_REG_FM1_DATA then 0x07 else 0)))
       = STATUS_DEVICE_DOES_NOT_EXIST"
proof -
  let ?env = "init_env_with STATUS_SUCCESS"
  let ?a = "adapter_in PowerDeviceD0 None None"
  have res: "1 \<le> NumberOfPorts ?env" "1 \<le> NumberOfInterrupts ?env"
    by (simp_all add: init_env_with_def)
  have sy: "sync_ok ?env" by (simp add: sync_ok_def init_env_with_def)
  note r1 = Init_probe_quiet(1)[of "0x01"] and i1 = Init_probe_quiet(2)[of "0x01"]
  note r7 = Init_probe_quiet(1)[of "0x07"] and i7 = Init_probe_quiet(2)[of "0x07"]
  have A: "NT_SUCCESS (fst (Init ?env ?a (machine_with (\<lambda>n p. if p = ALG_REG_FM1_DATA then 0x01 else 0))))"
    and B: "m_CardModel (fst (snd (Init ?env ?a
        (machine_with (\<lambda>n p. if p = ALG_REG_FM1_DATA then 0x01 else 0))))) = ALG_MODEL_GOLD2000"
    using Init_succeeds_for_recognized_model[OF res r1, of ?a] sy
    unfolding i1 by simp_all
  have C: "fst (Init ?env ?a (machine_with (\<lambda>n p. if p = ALG_REG_FM1_DATA then 0x07 else 0)))
       = STATUS_DEVICE_DOES_NOT_EXIST"
    using Init_succeeds_for_recognized_model[OF res r7, of ?a]
    unfolding i7 by simp
  from res sy r1 r7 A B C show ?thesis by blast
qed

text \<open>The claim as it was stated fails: the identity byte 0x01 is read and is a
  recognized model code, yet \<^verbatim>\<open>Init\<close> fails (with the status of \<^verbatim>\<open>Connect\<close>, not
  with \<^verbatim>\<open>STATUS_DEVICE_DOES_NOT_EXIST\<close>) when connecting the interrupt fails.\<close>

theorem Init_recognized_model_counterexample:
  "Init_idByte (machine_with (\<lambda>n p. if p = ALG_REG_FM1_DATA then 0x01 else 0)) AND CTRL_ID_MODEL_MASK
     = ALG_MODEL_GOLD2000
   \<and> port_reads ALG_REG_FM1_DATA
        (io_trace (snd (snd (Init (init_env_with STATUS_UNSUCCESSFUL) (adapter_in PowerDeviceD0 None None)
           (machine_with (\<lambda>n p. if p = ALG_REG_FM1_DATA then 0x01 else 0)))))) = [0x01]
   \<and> \<not> NT_SUCCESS (fst (Init (init_env_with STATUS_UNSUCCESSFUL) (adapter_in PowerDeviceD0 None None)
           (machine_with (\<lambda>n p. if p = ALG_REG_FM1_DATA then 0x01 else 0))))
   \<and> fst (Init (init_env_with STATUS_UNSUCCESSFUL) (adapter_in PowerDeviceD0 None None)
           (machine_with (\<lambda>n p. if p = ALG_REG_FM1_DATA then 0x01 else 0)))
       \<noteq> STATUS_DEVICE_DOES_NOT_EXIST"
proof -
  let ?m = "machine_with (\<lambda>n p. if p = ALG_REG_FM1_DATA then 0x01 else 0)"
  let ?env = "init_env_with STATUS_UNSUCCESSFUL"
  note rdy = Init_probe_quiet(1)[of "0x01"]
  note idb = Init_probe_quiet(2)[of "0x01"]
  have res: "1 \<le> NumberOfPorts ?env" "1 \<le> NumberOfInterrupts ?env"
    by (simp_all add: init_env_with_def)
  have tr: "io_trace ?m = []" by (simp add: machine_with_def)
  have st: "fst (Init ?env (adapter_in PowerDeviceD0 None None) ?m) = STATUS_UNSUCCESSFUL"
    by (simp only: Init_probed(1)[OF res rdy] idb) (simp add: init_env_with_def)
  have ne: "STATUS_UNSUCCESSFUL \<noteq> STATUS_DEVICE_DOES_NOT_EXIST"
    by (simp add: STATUS_UNSUCCESSFUL_def STATUS_DEVICE_DOES_NOT_EXIST_def)
  show ?thesis
    using Init_probed(3)[OF res rdy, of "adapter_in PowerDeviceD0 None None"] ne
    by (simp only: st idb tr) simp
qed

text \<open>
  Claim C10.  The shadow cache is indexed only under the guard
  \<^verbatim>\<open>Register < CTRL_REG_MAX\<close>, which is within the 25-entry array, and the array
  keeps its size.  For an index of 0x19 or more \<^verbatim>\<open>ControlRegWrite\<close> leaves the
  adapter object (and so every cache entry) unchanged, \<^verbatim>\<open>ControlRegRead\<close> returns
  0, and in an operative power state the hardware sequence is still performed:
  bank select, busy-poll, index write, data write, bank restore (no settle step
  for these indices).
\<close>
theorem shadow_cache_index_guarded:
  assumes "cache_ok a"
  shows "(unat r < CTRL_REG_MAX \<longrightarrow> unat r < length (m_ControlRegs a))
       \<and> cache_ok (fst (ControlRegWrite r v a m))
       \<and> (CTRL_REG_MAX \<le> unat r \<longrightarrow>
            fst (ControlRegWrite r v a m) = a
          \<and> ControlRegRead r (fst (ControlRegWrite r v a m)) = 0
          \<and> (\<not> operative a \<longrightarrow> snd (ControlRegWrite r v a m) = m)
          \<and> (operative a \<longrightarrow>
               (\<exists>w. io_trace (snd (ControlRegWrite r v a m)) =
                  io_trace m @ PortWrite ALG_REG_FM1_ADDR ALG_BANK_CONTROL # w
                    @ [PortWrite ALG_REG_FM1_ADDR r, PortWrite ALG_REG_FM1_DATA v,
                       PortWrite ALG_REG_FM1_ADDR ALG_BANK_OPL3]
                \<and> is_status_poll w)))"
proof -
  have "\<exists>w. io_trace (snd (ControlRegWrite r v a m)) =
                  io_trace m @ PortWrite ALG_REG_FM1_ADDR ALG_BANK_CONTROL # w
                    @ [PortWrite ALG_REG_FM1_ADDR r, PortWrite ALG_REG_FM1_DATA v,
                       PortWrite ALG_REG_FM1_ADDR ALG_BANK_OPL3]
                \<and> is_status_poll w"
    if "operative a" "CTRL_REG_MAX \<le> unat r"
  proof -
    from ControlRegWrite_on[OF that(1), of r v m] obtain w st where
      *: "io_trace (snd (ControlRegWrite r v a m)) =
           io_trace m @ PortWrite ALG_REG_FM1_ADDR ALG_BANK_CONTROL # w
             @ [PortWrite ALG_REG_FM1_ADDR r, PortWrite ALG_REG_FM1_DATA v] @ st
             @ [PortWrite ALG_REG_FM1_ADDR ALG_BANK_OPL3]" "is_status_poll w" "settle_ok r st"
      by blast
    from *(3) that(2) have "st = []" by (simp add: settle_ok_def)
    with * show ?thesis by simp
  qed
  then show ?thesis
    using assms
    by (simp add: ControlRegWrite_fst ControlRegWrite_off ControlRegRead_def cache_ok_def)
qed

theorem shadow_cache_index_guarded_witness:
  "cache_ok (adapter_in PowerDeviceD0 None None) \<and> CTRL_REG_MAX \<le> unat (0x19 :: BYTE)
   \<and> operative (adapter_in PowerDeviceD0 None None)
   \<and> fst (ControlRegWrite 0x19 0x55 (adapter_in PowerDeviceD0 None None) (machine_with (\<lambda>n p. 0)))
       = adapter_in PowerDeviceD0 None None
   \<and> ControlRegRead 0x19
       (fst (ControlRegWrite 0x19 0x55 (adapter_in PowerDeviceD0 None None) (machine_with (\<lambda>n p. 0)))) = 0
   \<and> (\<exists>w. io_trace (snd (ControlRegWrite 0x19 0x55 (adapter_in PowerDeviceD0 None None)
                (machine_with (\<lambda>n p. 0)))) =
            PortWrite ALG_REG_FM1_ADDR ALG_BANK_CONTROL # w
              @ [PortWrite ALG_REG_FM1_ADDR 0x19, PortWrite ALG_REG_FM1_DATA 0x55,
                 PortWrite ALG_REG_FM1_ADDR ALG_BANK_OPL3]
          \<and> is_status_poll w)"
proof -
  let ?a = "adapter_in PowerDeviceD0 None None"
  have c: "cache_ok ?a" by (simp add: cache_ok_def adapter_in_def)
  have op: "operative ?a" by (simp add: operative_def adapter_in_def)
  show ?thesis
    using shadow_cache_index_guarded[OF c, of "0x19" "0x55" "machine_with (\<lambda>n p. 0)"] op c
    by (simp add: machine_with_def ControlRegRead_def)
qed

end
